theory Spec2Isabelle
  imports Complex_Main
begin

section \<open>Python values\<close>

text \<open>
  Every \<open>raise\<close> of the script, of the interpreter or of a library is a value
  \<open>Inl e\<close> of a result type. A \<open>KeyError\<close> carries the missing key and a
  \<open>ValueError\<close> its message; the \<open>TypeError\<close> and \<open>AttributeError\<close> of the
  interpreter are kept without their message; \<open>Raised\<close> is any exception of a library
  or of the network, with its class name and message.
\<close>

datatype py_error =
    KeyError string
  | ValueError string
  | TypeError
  | AttributeError
  | Raised string string

text \<open>
  Numbers of the script are JSON numbers and 64-bit floats. A finite float is the real
  it denotes; the special values a float operation or an empty reduction produces are
  kept. The operations of the tables are first given without rounding, which is exact
  on values such as those of the example of the specification; the rounding and the
  overflow of the mean and of the subtraction of lines 402-404 are modelled in the
  section on float64 rounding below.
\<close>

datatype np_float = Finite real | NaN | PosInf | NegInf

section \<open>Heat alerts (app.py, lines 119-126)\<close>

text \<open>
  \<open>heat_alert\<close> returns one of three message strings. The constructors stand for
  them, in the order of the source: the extreme heat alert, the high heat warning and
  the normal temperature message.
\<close>

datatype alert = EXTREME_HEAT | HIGH_HEAT | NORMAL

definition heat_alert :: "real \<Rightarrow> alert" where
  "heat_alert temp =
     (if temp \<ge> 40 then EXTREME_HEAT
      else if temp \<ge> 35 then HIGH_HEAT
      else NORMAL)"

text \<open>The severity order the specification gives the three categories.\<close>

fun severity :: "alert \<Rightarrow> nat" where
  "severity NORMAL = 0"
| "severity HIGH_HEAT = 1"
| "severity EXTREME_HEAT = 2"

section \<open>Float arithmetic of the reductions and of the division\<close>

text \<open>
  Subtraction, division and comparison as numpy computes them on float64 values: a
  division by zero raises nothing, it gives \<open>nan\<close> for \<open>0 / 0\<close> and an infinity
  otherwise; every comparison with \<open>nan\<close> is false.
\<close>

fun np_sub :: "np_float \<Rightarrow> np_float \<Rightarrow> np_float" where
  "np_sub (Finite a) (Finite b) = Finite (a - b)"
| "np_sub NaN _ = NaN"
| "np_sub _ NaN = NaN"
| "np_sub PosInf PosInf = NaN"
| "np_sub NegInf NegInf = NaN"
| "np_sub PosInf _ = PosInf"
| "np_sub NegInf _ = NegInf"
| "np_sub (Finite a) PosInf = NegInf"
| "np_sub (Finite a) NegInf = PosInf"

fun np_div :: "np_float \<Rightarrow> np_float \<Rightarrow> np_float" where
  "np_div (Finite a) (Finite b) =
     (if b = 0 then (if a = 0 then NaN else if a > 0 then PosInf else NegInf)
      else Finite (a / b))"
| "np_div NaN _ = NaN"
| "np_div _ NaN = NaN"
| "np_div (Finite a) _ = Finite 0"
| "np_div PosInf (Finite b) = (if b \<ge> 0 then PosInf else NegInf)"
| "np_div NegInf (Finite b) = (if b \<ge> 0 then NegInf else PosInf)"
| "np_div _ _ = NaN"

fun np_lt :: "np_float \<Rightarrow> real \<Rightarrow> bool" where
  "np_lt (Finite a) c = (a < c)"
| "np_lt NegInf c = True"
| "np_lt PosInf c = False"
| "np_lt NaN c = False"

text \<open>
  The reductions of a pandas column: \<open>mean\<close>, \<open>max\<close> and \<open>min\<close> of a column
  with no entry are \<open>nan\<close>.
\<close>

definition series_mean :: "real list \<Rightarrow> np_float" where
  "series_mean xs = (if xs = [] then NaN else Finite (sum_list xs / real (length xs)))"

fun series_max :: "real list \<Rightarrow> np_float" where
  "series_max [] = NaN"
| "series_max (x # xs) = Finite (fold max xs x)"

fun series_min :: "real list \<Rightarrow> np_float" where
  "series_min [] = NaN"
| "series_min (x # xs) = Finite (fold min xs x)"

text \<open>
  \<open>idxmax\<close> and \<open>idxmin\<close>: the position of the first entry that holds the extreme
  value. The scan replaces its candidate only on a strict improvement. On a column
  with no entry both raise \<open>ValueError\<close>.
\<close>

fun argmax_from :: "real list \<Rightarrow> nat \<Rightarrow> real \<Rightarrow> nat \<Rightarrow> nat" where
  "argmax_from [] i best bi = bi"
| "argmax_from (x # xs) i best bi =
     (if x > best then argmax_from xs (Suc i) x i else argmax_from xs (Suc i) best bi)"

fun argmin_from :: "real list \<Rightarrow> nat \<Rightarrow> real \<Rightarrow> nat \<Rightarrow> nat" where
  "argmin_from [] i best bi = bi"
| "argmin_from (x # xs) i best bi =
     (if x < best then argmin_from xs (Suc i) x i else argmin_from xs (Suc i) best bi)"

definition idxmax :: "real list \<Rightarrow> py_error + nat" where
  "idxmax xs =
     (case xs of
        [] \<Rightarrow> Inl (ValueError ''attempt to get argmax of an empty sequence'')
      | x # rest \<Rightarrow> Inr (argmax_from rest 1 x 0))"

definition idxmin :: "real list \<Rightarrow> py_error + nat" where
  "idxmin xs =
     (case xs of
        [] \<Rightarrow> Inl (ValueError ''attempt to get argmin of an empty sequence'')
      | x # rest \<Rightarrow> Inr (argmin_from rest 1 x 0))"

section \<open>The district table (app.py, lines 100-107 and 251-263)\<close>

definition locations :: "(string \<times> real \<times> real) list" where
  "locations =
     [(''Delhi'', 28.6139, 77.2090),
      (''Gurgaon'', 28.4595, 77.0266),
      (''Noida'', 28.5355, 77.3910),
      (''Faridabad'', 28.4089, 77.3178),
      (''Ghaziabad'', 28.6692, 77.4538)]"

text \<open>
  What \<open>get_weather\<close> returns: a dictionary with these three keys. The values are
  whatever the response holds (type \<open>json weather\<close> below); a table is computed from
  numbers (type \<open>real weather\<close>).
\<close>

record 'a weather =
  temperature :: 'a
  humidity :: 'a
  feels_like :: 'a

text \<open>One dictionary of \<open>district_temps\<close>, a row of \<open>df_spatial\<close>.\<close>

record district_row =
  District :: string
  Temperature :: real
  Feels_Like :: real
  Humidity :: real
  Latitude :: real
  Longitude :: real

definition make_row :: "string \<times> real \<times> real \<Rightarrow> real weather \<Rightarrow> district_row" where
  "make_row loc w =
     (case loc of (name, lat, lon) \<Rightarrow>
        \<lparr>District = name, Temperature = temperature w, Feels_Like = feels_like w,
         Humidity = humidity w, Latitude = lat, Longitude = lon\<rparr>)"

text \<open>
  \<open>pd.DataFrame(district_temps)\<close> is the list of its rows, indexed from 0. The frame
  of an empty list has no column at all, so reading a column of it raises \<open>KeyError\<close>.
\<close>

definition column :: "'r list \<Rightarrow> string \<Rightarrow> ('r \<Rightarrow> 'a) \<Rightarrow> py_error + 'a list" where
  "column df cname field = (if df = [] then Inl (KeyError cname) else Inr (map field df))"

text \<open>\<open>df.loc[i]\<close>: the row with index label \<open>i\<close>.\<close>

definition loc :: "'r list \<Rightarrow> nat \<Rightarrow> py_error + 'r" where
  "loc df i = (if i < length df then Inr (df ! i) else Inl (KeyError ''index label''))"

section \<open>Temperature anomaly of the comparison table (app.py, lines 349-350)\<close>

text \<open>
  The column \<open>Temp Anomaly\<close> as line 350 computes it, before the rounding of the
  display columns.
\<close>

definition temp_anomaly :: "district_row list \<Rightarrow> py_error + np_float list" where
  "temp_anomaly df_spatial =
     (case column df_spatial ''Temperature'' Temperature of
        Inl e \<Rightarrow> Inl e
      | Inr temps \<Rightarrow> Inr (map (\<lambda>t. np_sub (Finite t) (series_mean temps)) temps))"

section \<open>Heat distribution map (app.py, lines 365-375)\<close>

definition temp_normalized :: "district_row list \<Rightarrow> district_row \<Rightarrow> np_float" where
  "temp_normalized df_spatial row =
     (let temps = map Temperature df_spatial in
      np_div (np_sub (Finite (Temperature row)) (series_min temps))
             (np_sub (series_max temps) (series_min temps)))"

definition marker_color :: "np_float \<Rightarrow> string" where
  "marker_color tn =
     (if np_lt tn 0.33 then ''blue''
      else if np_lt tn 0.66 then ''orange''
      else ''red'')"

text \<open>The loop over \<open>df_spatial.iterrows()\<close>: one circle marker per row.\<close>

definition heat_map_markers :: "district_row list \<Rightarrow> (string \<times> string) list" where
  "heat_map_markers df_spatial =
     map (\<lambda>row. (District row, marker_color (temp_normalized df_spatial row))) df_spatial"

section \<open>Urban heat island analysis (app.py, lines 402-404 and 434-435)\<close>

text \<open>
  \<open>df_uhi\<close> is a copy of \<open>df_spatial\<close> with the column \<open>UHI Intensity\<close> added: each
  row is paired with its intensity. The mean is \<open>nan\<close> only for a column with no
  entry; \<open>df_uhi\<close> has no row then and \<open>idxmax\<close> raises.
\<close>

record uhi_summary =
  mean_temp :: real
  df_uhi :: "(district_row \<times> real) list"
  hottest_district :: "district_row \<times> real"
  coolest_district :: "district_row \<times> real"

definition uhi_analysis :: "district_row list \<Rightarrow> py_error + uhi_summary" where
  "uhi_analysis df_spatial =
     (case column df_spatial ''Temperature'' Temperature of
        Inl e \<Rightarrow> Inl e
      | Inr temps \<Rightarrow>
          (case series_mean temps of
             Finite m \<Rightarrow>
               (let tbl = map (\<lambda>r. (r, Temperature r - m)) df_spatial in
                case idxmax (map snd tbl) of
                  Inl e \<Rightarrow> Inl e
                | Inr imax \<Rightarrow>
                    (case loc tbl imax of
                       Inl e \<Rightarrow> Inl e
                     | Inr hottest \<Rightarrow>
                         (case idxmin (map snd tbl) of
                            Inl e \<Rightarrow> Inl e
                          | Inr imin \<Rightarrow>
                              (case loc tbl imin of
                                 Inl e \<Rightarrow> Inl e
                               | Inr coolest \<Rightarrow>
                                   Inr \<lparr>mean_temp = m, df_uhi = tbl,
                                        hottest_district = hottest,
                                        coolest_district = coolest\<rparr>))))
           | _ \<Rightarrow> Inl (ValueError ''attempt to get argmax of an empty sequence'')))"

text \<open>
  The table the loop of lines 251-263 builds out of the weather of each location, in
  the order of \<open>locations\<close>.
\<close>

definition district_table :: "real weather list \<Rightarrow> district_row list" where
  "district_table ws = map2 make_row locations ws"

text \<open>
  What \<open>idxmax\<close> and \<open>idxmin\<close> are to return: a position that holds the extreme
  value, with only strictly less extreme values before it.
\<close>

definition first_max :: "real list \<Rightarrow> nat \<Rightarrow> bool" where
  "first_max ys r =
     (r < length ys \<and> (\<forall>j<length ys. ys ! j \<le> ys ! r) \<and> (\<forall>j<r. ys ! j < ys ! r))"

definition first_min :: "real list \<Rightarrow> nat \<Rightarrow> bool" where
  "first_min ys r =
     (r < length ys \<and> (\<forall>j<length ys. ys ! r \<le> ys ! j) \<and> (\<forall>j<r. ys ! r < ys ! j))"

section \<open>Float64 rounding of the mean and of the intensities (app.py, lines 402-404)\<close>

text \<open>
  A float64 operation computes the exact result and rounds it: to an infinity when the
  exact result has magnitude \<open>(2 - 2^-53) * 2^1023\<close> or more, to a nearest float64
  otherwise. The rounding of finite results is the parameter \<open>rnd\<close> of the
  operations. \<open>float64_rounding\<close> is what rounding to nearest guarantees: a relative
  error of at most \<open>2^-53\<close>, and in the subnormal range an absolute error of at most
  \<open>2^-1075\<close>.
\<close>

fun np_add :: "np_float \<Rightarrow> np_float \<Rightarrow> np_float" where
  "np_add (Finite a) (Finite b) = Finite (a + b)"
| "np_add NaN _ = NaN"
| "np_add _ NaN = NaN"
| "np_add PosInf NegInf = NaN"
| "np_add NegInf PosInf = NaN"
| "np_add PosInf _ = PosInf"
| "np_add NegInf _ = NegInf"
| "np_add (Finite a) PosInf = PosInf"
| "np_add (Finite a) NegInf = NegInf"

definition overflow_threshold :: real where
  "overflow_threshold = (2 - 1 / 2 ^ 53) * 2 ^ 1023"

definition float64_rounding :: "(real \<Rightarrow> real) \<Rightarrow> bool" where
  "float64_rounding rnd = (\<forall>x. \<bar>rnd x - x\<bar> \<le> \<bar>x\<bar> / 2 ^ 53 + 1 / 2 ^ 1075)"

fun np_round :: "(real \<Rightarrow> real) \<Rightarrow> np_float \<Rightarrow> np_float" where
  "np_round rnd (Finite x) =
     (if overflow_threshold \<le> x then PosInf
      else if x \<le> - overflow_threshold then NegInf
      else Finite (rnd x))"
| "np_round rnd v = v"

definition fp_add :: "(real \<Rightarrow> real) \<Rightarrow> np_float \<Rightarrow> np_float \<Rightarrow> np_float" where
  "fp_add rnd a b = np_round rnd (np_add a b)"

definition fp_sub :: "(real \<Rightarrow> real) \<Rightarrow> np_float \<Rightarrow> np_float \<Rightarrow> np_float" where
  "fp_sub rnd a b = np_round rnd (np_sub a b)"

definition fp_div :: "(real \<Rightarrow> real) \<Rightarrow> np_float \<Rightarrow> np_float \<Rightarrow> np_float" where
  "fp_div rnd a b = np_round rnd (np_div a b)"

text \<open>
  The sum of a column as numpy computes it for fewer than eight entries: from left to
  right, starting with the first entry (longer columns are added in blocks, which is
  not modelled: the table has five rows). The mean is the sum divided by the number
  of entries; the mean of no entry is \<open>nan\<close>.
\<close>

fun fp_sum :: "(real \<Rightarrow> real) \<Rightarrow> np_float list \<Rightarrow> np_float" where
  "fp_sum rnd [] = Finite 0"
| "fp_sum rnd (x # xs) = fold (\<lambda>y acc. fp_add rnd acc y) xs x"

definition fp_mean :: "(real \<Rightarrow> real) \<Rightarrow> np_float list \<Rightarrow> np_float" where
  "fp_mean rnd xs =
     (if xs = [] then NaN else fp_div rnd (fp_sum rnd xs) (Finite (real (length xs))))"

text \<open>
  Lines 402 and 404: the mean of the temperature column and the column
  \<open>UHI Intensity\<close>, the temperature minus the mean, entry by entry. Line 350 computes
  the column \<open>Temp Anomaly\<close> in the same way.
\<close>

definition fp_uhi_intensity ::
  "(real \<Rightarrow> real) \<Rightarrow> district_row list \<Rightarrow> py_error + (np_float \<times> np_float list)" where
  "fp_uhi_intensity rnd df_spatial =
     (case column df_spatial ''Temperature'' Temperature of
        Inl e \<Rightarrow> Inl e
      | Inr temps \<Rightarrow>
          (let mean_temp = fp_mean rnd (map Finite temps)
           in Inr (mean_temp, map (\<lambda>t. fp_sub rnd (Finite t) mean_temp) temps)))"

text \<open>The error bound of one rounding of a result of magnitude at most \<open>M\<close>.\<close>

definition round_err :: "real \<Rightarrow> real" where
  "round_err M = M / 2 ^ 53 + 1 / 2 ^ 1075"

section \<open>JSON values (what \<open>.json()\<close> and \<open>getInfo()\<close> return)\<close>

text \<open>
  A parsed JSON value as Python holds it. An object lists its members in the order of
  the text; a key that occurs twice has the value of its last occurrence. A number is
  the real it denotes.
\<close>

datatype json =
    JNull
  | JBool bool
  | JNum real
  | JStr string
  | JArr "json list"
  | JObj "(string \<times> json) list"

definition member_of :: "(string \<times> json) list \<Rightarrow> string \<Rightarrow> json option" where
  "member_of ms k = map_of (rev ms) k"

text \<open>
  \<open>x[k]\<close> with a string key: the member of a dictionary or \<open>KeyError\<close>; on a list,
  a string, a number, a boolean or \<open>None\<close> the interpreter raises \<open>TypeError\<close>.
\<close>

fun subscript :: "json \<Rightarrow> string \<Rightarrow> py_error + json" where
  "subscript (JObj ms) k =
     (case member_of ms k of None \<Rightarrow> Inl (KeyError k) | Some v \<Rightarrow> Inr v)"
| "subscript _ k = Inl TypeError"

text \<open>\<open>x.get(k)\<close>: only a dictionary has the method.\<close>

fun py_get :: "json \<Rightarrow> string \<Rightarrow> py_error + json" where
  "py_get (JObj ms) k = Inr (case member_of ms k of None \<Rightarrow> JNull | Some v \<Rightarrow> v)"
| "py_get _ k = Inl AttributeError"

text \<open>The truth value of \<open>if x\<close>.\<close>

fun truthy :: "json \<Rightarrow> bool" where
  "truthy JNull = False"
| "truthy (JBool b) = b"
| "truthy (JNum r) = (r \<noteq> 0)"
| "truthy (JStr s) = (s \<noteq> [])"
| "truthy (JArr xs) = (xs \<noteq> [])"
| "truthy (JObj ms) = (ms \<noteq> [])"

fun contains_str :: "string \<Rightarrow> string \<Rightarrow> bool" where
  "contains_str [] p = (p = [])"
| "contains_str (c # cs) p = (take (length p) (c # cs) = p \<or> contains_str cs p)"

text \<open>
  \<open>k in x\<close> for a string \<open>k\<close>: a key of a dictionary, an element of a list, a part of
  a string; a number, a boolean and \<open>None\<close> are not iterable.
\<close>

fun py_in :: "string \<Rightarrow> json \<Rightarrow> py_error + bool" where
  "py_in k (JObj ms) = Inr (member_of ms k \<noteq> None)"
| "py_in k (JArr xs) = Inr (JStr k \<in> set xs)"
| "py_in k (JStr s) = Inr (contains_str s k)"
| "py_in k _ = Inl TypeError"

text \<open>
  A value in a comparison with an integer (\<open>x >= 40\<close>): a number, or a boolean, which
  counts as 1 or 0; anything else raises \<open>TypeError\<close>.
\<close>

fun py_number :: "json \<Rightarrow> real option" where
  "py_number (JNum r) = Some r"
| "py_number (JBool b) = Some (if b then 1 else 0)"
| "py_number _ = None"

text \<open>\<open>heat_alert\<close> as the script calls it, on a value of a response.\<close>

definition py_heat_alert :: "json \<Rightarrow> py_error + alert" where
  "py_heat_alert temp =
     (case py_number temp of None \<Rightarrow> Inl TypeError | Some t \<Rightarrow> Inr (heat_alert t))"

section \<open>The weather API (app.py, lines 109-117)\<close>

text \<open>
  A request is the query of the URL: latitude, longitude and API key (the units are
  always metric). \<open>requests.get(url).json()\<close> raises (no connection, a body that is
  not JSON) or returns the parsed body.
\<close>

record request =
  req_lat :: real
  req_lon :: real
  req_appid :: string

datatype http_response = Raises py_error | Json json

text \<open>
  Lines 112-117: the three fields are read in the order of the dictionary display.
  Nothing looks at their values: a field that is \<open>null\<close> or a string is returned as
  it is.
\<close>

definition read_weather :: "http_response \<Rightarrow> py_error + json weather" where
  "read_weather resp =
     (case resp of
        Raises e \<Rightarrow> Inl e
      | Json data \<Rightarrow>
          (case subscript data ''main'' of
             Inl e \<Rightarrow> Inl e
           | Inr main \<Rightarrow>
               (case subscript main ''temp'' of
                  Inl e \<Rightarrow> Inl e
                | Inr t \<Rightarrow>
                    (case subscript main ''humidity'' of
                       Inl e \<Rightarrow> Inl e
                     | Inr h \<Rightarrow>
                         (case subscript main ''feels_like'' of
                            Inl e \<Rightarrow> Inl e
                          | Inr f \<Rightarrow>
                              Inr \<lparr>temperature = t, humidity = h, feels_like = f\<rparr>)))))"

text \<open>The numbers of a weather dictionary, when its three values are numbers.\<close>

fun json_num :: "json \<Rightarrow> real option" where
  "json_num (JNum r) = Some r"
| "json_num _ = None"

definition numeric_weather :: "json weather \<Rightarrow> real weather option" where
  "numeric_weather w =
     (case json_num (temperature w) of
        None \<Rightarrow> None
      | Some t \<Rightarrow>
          (case json_num (humidity w) of
             None \<Rightarrow> None
           | Some h \<Rightarrow>
               (case json_num (feels_like w) of
                  None \<Rightarrow> None
                | Some f \<Rightarrow> Some \<lparr>temperature = t, humidity = h, feels_like = f\<rparr>)))"

section \<open>One run of the script\<close>

text \<open>
  The script runs from top to bottom on every refresh. What it shows on the page is a
  list of events; charts and metric widgets, which compute nothing the script uses
  later, leave no event. \<open>St_exception p e\<close> is \<open>st.error\<close> of the text \<open>p\<close>
  followed by \<open>str(e)\<close>.
\<close>

datatype ui_event =
    St_error string
  | St_exception string py_error
  | St_warning string
  | Ee_layer
  | Marker string alert string
  | Lst_metrics np_float np_float np_float nat
  | St_dataframe "np_float list"
  | Circle_marker string string
  | St_info string real real
  | St_write string "json weather"

text \<open>The state of a run: the HTTP GETs sent to the weather API so far, and the page.\<close>

record run_state =
  http_gets :: "request list"
  page :: "ui_event list"

text \<open>
  What the outside world and the libraries answer during one run:
  \<^item> the number of bands of the composite (line 91) and the map id of the layer
    (line 64);
  \<^item> the response to the k-th GET of the run;
  \<^item> the feature list of the time series (line 188);
  \<^item> \<open>float(s)\<close> on a string (line 199) and \<open>pd.to_datetime(dates)\<close> (line 203),
    which return or raise;
  \<^item> what pandas and the charts make of a table with a cell that is not a number:
    the widgets they show and the exception they end with, if any.
  The credentials and the API key are loaded.
\<close>

record env =
  api_key :: string
  band_count :: "py_error + nat"
  map_id :: "py_error + unit"
  weather_api :: "nat \<Rightarrow> http_response"
  ts_info :: "py_error + json list"
  float_of_str :: "string \<Rightarrow> py_error + real"
  to_datetime :: "json list \<Rightarrow> py_error + unit"
  malformed_table ::
    "((string \<times> real \<times> real) \<times> json weather) list \<Rightarrow> ui_event list \<times> py_error option"

definition get_weather ::
  "env \<Rightarrow> real \<Rightarrow> real \<Rightarrow> run_state \<Rightarrow> (py_error + json weather) \<times> run_state" where
  "get_weather env lat lon st =
     (read_weather (weather_api env (length (http_gets st))),
      st\<lparr>http_gets := http_gets st @
           [\<lparr>req_lat = lat, req_lon = lon, req_appid = api_key env\<rparr>]\<rparr>)"

definition emit :: "ui_event list \<Rightarrow> run_state \<Rightarrow> run_state" where
  "emit evs st = st\<lparr>page := page st @ evs\<rparr>"

subsection \<open>The satellite layer (lines 83-98)\<close>

definition lst_map_section :: "env \<Rightarrow> run_state \<Rightarrow> (py_error + unit) \<times> run_state" where
  "lst_map_section env st =
     (case band_count env of
        Inl e \<Rightarrow> (Inl e, st)
      | Inr n \<Rightarrow>
          if n = 0 then
            (Inr (), emit [St_error ''No MODIS images found for the selected date!''] st)
          else
            (case map_id env of
               Inl e \<Rightarrow> (Inl e, st)
             | Inr _ \<Rightarrow> (Inr (), emit [Ee_layer] st)))"

subsection \<open>The weather markers (lines 128-143)\<close>

fun marker_loop ::
  "env \<Rightarrow> (string \<times> real \<times> real) list \<Rightarrow> run_state \<Rightarrow> (py_error + unit) \<times> run_state" where
  "marker_loop env [] st = (Inr (), st)"
| "marker_loop env ((name, lat, lon) # ls) st =
     (case get_weather env lat lon st of
        (Inl e, st') \<Rightarrow> (Inl e, st')
      | (Inr w, st') \<Rightarrow>
          (case py_heat_alert (temperature w) of
             Inl e \<Rightarrow> (Inl e, st')
           | Inr alert \<Rightarrow>
               (case py_number (temperature w) of
                  None \<Rightarrow> (Inl TypeError, st')
                | Some t \<Rightarrow>
                    marker_loop env ls
                      (emit [Marker name alert (if t \<ge> 35 then ''red'' else ''green'')]
                         st'))))"

subsection \<open>The time series (lines 158-244)\<close>

text \<open>\<open>float(x)\<close> of line 199.\<close>

fun py_float :: "env \<Rightarrow> json \<Rightarrow> py_error + real" where
  "py_float env (JNum r) = Inr r"
| "py_float env (JBool b) = Inr (if b then 1 else 0)"
| "py_float env (JStr s) = float_of_str env s"
| "py_float env _ = Inl TypeError"

text \<open>The loop of lines 194-199 over the features.\<close>

fun collect_ts ::
  "env \<Rightarrow> json list \<Rightarrow> json list \<Rightarrow> real list \<Rightarrow> py_error + (json list \<times> real list)" where
  "collect_ts env [] dates temps = Inr (dates, temps)"
| "collect_ts env (feature # fs) dates temps =
     (if \<not> truthy feature then collect_ts env fs dates temps
      else
        (case py_in ''properties'' feature of
           Inl e \<Rightarrow> Inl e
         | Inr has \<Rightarrow>
             if \<not> has then collect_ts env fs dates temps
             else
               (case subscript feature ''properties'' of
                  Inl e \<Rightarrow> Inl e
                | Inr props \<Rightarrow>
                    (case py_get props ''mean_lst'' of
                       Inl e \<Rightarrow> Inl e
                     | Inr v \<Rightarrow>
                         if v = JNull then collect_ts env fs dates temps
                         else
                           (case subscript props ''date'' of
                              Inl e \<Rightarrow> Inl e
                            | Inr d \<Rightarrow>
                                (case py_float env v of
                                   Inl e \<Rightarrow> Inl e
                                 | Inr x \<Rightarrow>
                                     collect_ts env fs (dates @ [d]) (temps @ [x])))))))"

text \<open>The body of the \<open>try\<close>: what it shows, or the exception it ends with.\<close>

definition time_series_body :: "env \<Rightarrow> py_error + ui_event list" where
  "time_series_body env =
     (case ts_info env of
        Inl e \<Rightarrow> Inl e
      | Inr ts_list \<Rightarrow>
          (case collect_ts env ts_list [] [] of
             Inl e \<Rightarrow> Inl e
           | Inr (dates, temps) \<Rightarrow>
               if dates \<noteq> [] then
                 (case to_datetime env dates of
                    Inl e \<Rightarrow> Inl e
                  | Inr _ \<Rightarrow>
                      Inr [Lst_metrics (series_mean temps) (series_max temps)
                             (series_min temps) (length temps)])
               else
                 Inr [St_warning ''No MODIS data available for the selected date range.'']))"

text \<open>The \<open>try\<close> with its \<open>except Exception\<close>: the section never raises.\<close>

definition time_series_section :: "env \<Rightarrow> run_state \<Rightarrow> run_state" where
  "time_series_section env st =
     (case time_series_body env of
        Inl e \<Rightarrow> emit [St_exception ''Error fetching time series data: '' e] st
      | Inr evs \<Rightarrow> emit evs st)"

subsection \<open>The spatial distribution (lines 249-452)\<close>

fun fetch_districts ::
  "env \<Rightarrow> (string \<times> real \<times> real) list \<Rightarrow>
   ((string \<times> real \<times> real) \<times> json weather) list \<Rightarrow> run_state \<Rightarrow>
   (py_error + ((string \<times> real \<times> real) \<times> json weather) list) \<times> run_state" where
  "fetch_districts env [] district_temps st = (Inr district_temps, st)"
| "fetch_districts env ((name, lat, lon) # ls) district_temps st =
     (case get_weather env lat lon st of
        (Inl e, st') \<Rightarrow> (Inl e, st')
      | (Inr w, st') \<Rightarrow>
          fetch_districts env ls (district_temps @ [((name, lat, lon), w)]) st')"

text \<open>
  \<open>pd.DataFrame(district_temps)\<close> as a table of numbers, when every weather value is
  one.
\<close>

definition data_frame ::
  "((string \<times> real \<times> real) \<times> json weather) list \<Rightarrow> district_row list option" where
  "data_frame district_temps =
     those (map (\<lambda>(l, w). map_option (make_row l) (numeric_weather w)) district_temps)"

definition spatial_body :: "env \<Rightarrow> run_state \<Rightarrow> (py_error + unit) \<times> run_state" where
  "spatial_body env st =
     (case fetch_districts env locations [] st of
        (Inl e, st1) \<Rightarrow> (Inl e, st1)
      | (Inr district_temps, st1) \<Rightarrow>
          (case data_frame district_temps of
             None \<Rightarrow>
               (case malformed_table env district_temps of
                  (evs, None) \<Rightarrow> (Inr (), emit evs st1)
                | (evs, Some e) \<Rightarrow> (Inl e, emit evs st1))
           | Some df_spatial \<Rightarrow>
               (case temp_anomaly df_spatial of
                  Inl e \<Rightarrow> (Inl e, st1)
                | Inr anomalies \<Rightarrow>
                    (let st2 = emit (St_dataframe anomalies #
                                 map (\<lambda>(d, c). Circle_marker d c)
                                   (heat_map_markers df_spatial)) st1
                     in case uhi_analysis df_spatial of
                          Inl e \<Rightarrow> (Inl e, st2)
                        | Inr s \<Rightarrow>
                            (Inr (),
                             emit [St_info (District (fst (hottest_district s)))
                                     (snd (hottest_district s))
                                     (Temperature (fst (hottest_district s))),
                                   St_info (District (fst (coolest_district s)))
                                     (snd (coolest_district s))
                                     (Temperature (fst (coolest_district s)))] st2)))))"

definition spatial_section :: "env \<Rightarrow> run_state \<Rightarrow> run_state" where
  "spatial_section env st =
     (case spatial_body env st of
        (Inl e, st') \<Rightarrow>
          emit [St_exception ''Error in spatial distribution analysis: '' e] st'
      | (Inr _, st') \<Rightarrow> st')"

subsection \<open>The live alerts (lines 455-458)\<close>

fun alerts_loop ::
  "env \<Rightarrow> (string \<times> real \<times> real) list \<Rightarrow> run_state \<Rightarrow> (py_error + unit) \<times> run_state" where
  "alerts_loop env [] st = (Inr (), st)"
| "alerts_loop env ((name, lat, lon) # ls) st =
     (case get_weather env lat lon st of
        (Inl e, st') \<Rightarrow> (Inl e, st')
      | (Inr w, st') \<Rightarrow> alerts_loop env ls (emit [St_write name w] st'))"

subsection \<open>The whole run\<close>

text \<open>
  An exception that no \<open>try\<close> catches ends the run: nothing after it is executed.
\<close>

datatype outcome = Completed | Crashed py_error

definition init_state :: run_state where
  "init_state = \<lparr>http_gets = [], page = []\<rparr>"

definition run_cycle :: "env \<Rightarrow> outcome \<times> run_state" where
  "run_cycle env =
     (case lst_map_section env init_state of
        (Inl e, st1) \<Rightarrow> (Crashed e, st1)
      | (Inr _, st1) \<Rightarrow>
          (case marker_loop env locations st1 of
             (Inl e, st2) \<Rightarrow> (Crashed e, st2)
           | (Inr _, st2) \<Rightarrow>
               (case alerts_loop env locations
                       (spatial_section env (time_series_section env st2)) of
                  (Inl e, st5) \<Rightarrow> (Crashed e, st5)
                | (Inr _, st5) \<Rightarrow> (Completed, st5))))"

text \<open>The requests one pass over \<open>locations\<close> sends.\<close>

definition request_of :: "env \<Rightarrow> string \<times> real \<times> real \<Rightarrow> request" where
  "request_of env l =
     (case l of (name, lat, lon) \<Rightarrow>
        \<lparr>req_lat = lat, req_lon = lon, req_appid = api_key env\<rparr>)"

text \<open>
  Whether the k-th GET of the run is answered with a body that has the three fields,
  each a number.
\<close>

definition weather_ok :: "env \<Rightarrow> nat \<Rightarrow> bool" where
  "weather_ok env k =
     (case read_weather (weather_api env k) of
        Inl _ \<Rightarrow> False
      | Inr w \<Rightarrow> (case numeric_weather w of None \<Rightarrow> False | Some _ \<Rightarrow> True))"

text \<open>The exception \<open>get_weather\<close> raises at the k-th GET of the run, if any.\<close>

definition fetch_error :: "env \<Rightarrow> nat \<Rightarrow> py_error option" where
  "fetch_error env k =
     (case read_weather (weather_api env k) of Inl e \<Rightarrow> Some e | Inr _ \<Rightarrow> None)"

text \<open>
  The exception of the pass of the marker loop that sends the k-th GET, if any: that
  of the fetch, or the \<open>TypeError\<close> of \<open>heat_alert\<close> on a temperature that cannot be
  compared with a number.
\<close>

definition marker_error :: "env \<Rightarrow> nat \<Rightarrow> py_error option" where
  "marker_error env k =
     (case read_weather (weather_api env k) of
        Inl e \<Rightarrow> Some e
      | Inr w \<Rightarrow> (case py_number (temperature w) of None \<Rightarrow> Some TypeError | Some _ \<Rightarrow> None))"

subsection \<open>Sample runs\<close>

definition sample_weather :: "real \<Rightarrow> real weather" where
  "sample_weather t = \<lparr>temperature = t, humidity = 40, feels_like = t + 2\<rparr>"

definition weather_body :: "json \<Rightarrow> json \<Rightarrow> json \<Rightarrow> http_response" where
  "weather_body t f h =
     Json (JObj [(''main'', JObj [(''temp'', t), (''feels_like'', f), (''humidity'', h)])])"

definition ok_response :: "real \<Rightarrow> http_response" where
  "ok_response t = weather_body (JNum t) (JNum (t + 2)) (JNum 40)"

text \<open>
  A run in which every outside call succeeds, and runs in which the GETs of a given
  list alone fail. The library answers of the calm run are never asked for.
\<close>

definition calm_env :: env where
  "calm_env =
     \<lparr>api_key = ''KEY'', band_count = Inr 1, map_id = Inr (),
      weather_api = (\<lambda>k. ok_response 30), ts_info = Inr [],
      float_of_str = (\<lambda>s. Inl (ValueError s)), to_datetime = (\<lambda>dates. Inr ()),
      malformed_table = (\<lambda>rows. ([], Some TypeError))\<rparr>"

definition get_fails_env :: "nat \<Rightarrow> py_error \<Rightarrow> env" where
  "get_fails_env k e =
     calm_env\<lparr>weather_api := (\<lambda>j. if j = k then Raises e else ok_response 30)\<rparr>"

definition gets_fail_env :: "nat list \<Rightarrow> py_error \<Rightarrow> env" where
  "gets_fail_env ks e =
     calm_env\<lparr>weather_api := (\<lambda>j. if j \<in> set ks then Raises e else ok_response 30)\<rparr>"

section \<open>Properties of the heat classifier\<close>

text \<open>
  C4: for every temperature the classifier takes the first threshold that matches:
  the extreme category from 40 up, the high category from 35 up to but excluding 40,
  the normal category below 35. At the boundaries, 40.0 is extreme, 39.999 and 35.0
  are high, 34.999 is normal, and -200 is normal: no value is rejected.
\<close>

theorem heat_alert_thresholds:
  "(t \<ge> 40 \<longrightarrow> heat_alert t = EXTREME_HEAT) \<and>
   (35 \<le> t \<and> t < 40 \<longrightarrow> heat_alert t = HIGH_HEAT) \<and>
   (t < 35 \<longrightarrow> heat_alert t = NORMAL) \<and>
   heat_alert 40.0 = EXTREME_HEAT \<and>
   heat_alert 39.999 = HIGH_HEAT \<and>
   heat_alert 35.0 = HIGH_HEAT \<and>
   heat_alert 34.999 = NORMAL \<and>
   heat_alert (- 200) = NORMAL"
  by (simp add: heat_alert_def)

theorem heat_alert_thresholds_witness:
  "heat_alert 41 = EXTREME_HEAT \<and> heat_alert 37 = HIGH_HEAT \<and> heat_alert 33 = NORMAL"
proof -
  have "heat_alert 41 = EXTREME_HEAT"
    using heat_alert_thresholds [of 41] by simp
  moreover have "heat_alert 37 = HIGH_HEAT"
    using heat_alert_thresholds [of 37] by simp
  moreover have "heat_alert 33 = NORMAL"
    using heat_alert_thresholds [of 33] by simp
  ultimately show ?thesis by simp
qed

text \<open>
  C5: the classifier is monotonic: a higher temperature never gets a category of
  lower severity.
\<close>

theorem heat_alert_monotonic:
  "a > b \<Longrightarrow> severity (heat_alert b) \<le> severity (heat_alert a)"
  by (simp add: heat_alert_def)

theorem heat_alert_monotonic_witness:
  "(41::real) > 36 \<and> severity (heat_alert 36) \<le> severity (heat_alert 41) \<and>
   severity (heat_alert 36) = 1 \<and> severity (heat_alert 41) = 2"
proof -
  have h: "(41::real) > 36" by simp
  show ?thesis using heat_alert_monotonic [OF h] by (simp add: heat_alert_def)
qed

section \<open>Properties of the urban heat island analysis\<close>

subsection \<open>The scans find the first extreme value\<close>

lemma first_max_snoc:
  assumes "first_max pre bi"
  shows "first_max (pre @ [x]) (if x > pre ! bi then length pre else bi)"
proof (cases "x > pre ! bi")
  case True
  have "\<forall>j<length pre. pre ! j < x"
    using assms True unfolding first_max_def by (meson le_less_trans)
  then show ?thesis
    using True by (auto simp: first_max_def nth_append less_Suc_eq)
next
  case False
  then show ?thesis
    using assms by (auto simp: first_max_def nth_append less_Suc_eq)
qed

lemma argmax_from_first_max:
  "first_max pre bi \<Longrightarrow> i = length pre \<Longrightarrow> best = pre ! bi \<Longrightarrow>
   first_max (pre @ xs) (argmax_from xs i best bi)"
proof (induction xs arbitrary: pre i best bi)
  case Nil
  then show ?case by simp
next
  case (Cons x xs)
  let ?bi = "if x > pre ! bi then length pre else bi"
  have fm: "first_max (pre @ [x]) ?bi"
    by (rule first_max_snoc [OF Cons.prems(1)])
  have bi: "bi < length pre"
    using Cons.prems(1) by (simp add: first_max_def)
  have "first_max ((pre @ [x]) @ xs)
          (argmax_from xs (length (pre @ [x])) ((pre @ [x]) ! ?bi) ?bi)"
    by (rule Cons.IH [OF fm refl refl])
  then show ?case
    using Cons.prems(2,3) bi by (auto simp: nth_append split: if_splits)
qed

lemma idxmax_first_max:
  "xs \<noteq> [] \<Longrightarrow> \<exists>i. idxmax xs = Inr i \<and> first_max xs i"
proof (cases xs)
  case Nil
  assume "xs \<noteq> []"
  with Nil show ?thesis by simp
next
  case (Cons x rest)
  have "first_max [x] 0" by (simp add: first_max_def)
  from argmax_from_first_max [OF this, of 1 x rest]
  show ?thesis using Cons by (simp add: idxmax_def)
qed

lemma first_min_snoc:
  assumes "first_min pre bi"
  shows "first_min (pre @ [x]) (if x < pre ! bi then length pre else bi)"
proof (cases "x < pre ! bi")
  case True
  have "\<forall>j<length pre. x < pre ! j"
    using assms True unfolding first_min_def by (meson less_le_trans)
  then show ?thesis
    using True by (auto simp: first_min_def nth_append less_Suc_eq)
next
  case False
  then show ?thesis
    using assms by (auto simp: first_min_def nth_append less_Suc_eq)
qed

lemma argmin_from_first_min:
  "first_min pre bi \<Longrightarrow> i = length pre \<Longrightarrow> best = pre ! bi \<Longrightarrow>
   first_min (pre @ xs) (argmin_from xs i best bi)"
proof (induction xs arbitrary: pre i best bi)
  case Nil
  then show ?case by simp
next
  case (Cons x xs)
  let ?bi = "if x < pre ! bi then length pre else bi"
  have fm: "first_min (pre @ [x]) ?bi"
    by (rule first_min_snoc [OF Cons.prems(1)])
  have bi: "bi < length pre"
    using Cons.prems(1) by (simp add: first_min_def)
  have "first_min ((pre @ [x]) @ xs)
          (argmin_from xs (length (pre @ [x])) ((pre @ [x]) ! ?bi) ?bi)"
    by (rule Cons.IH [OF fm refl refl])
  then show ?case
    using Cons.prems(2,3) bi by (auto simp: nth_append split: if_splits)
qed

lemma idxmin_first_min:
  "xs \<noteq> [] \<Longrightarrow> \<exists>i. idxmin xs = Inr i \<and> first_min xs i"
proof (cases xs)
  case Nil
  assume "xs \<noteq> []"
  with Nil show ?thesis by simp
next
  case (Cons x rest)
  have "first_min [x] 0" by (simp add: first_min_def)
  from argmin_from_first_min [OF this, of 1 x rest]
  show ?thesis using Cons by (simp add: idxmin_def)
qed

lemma uhi_analysis_nonempty:
  assumes "df \<noteq> []"
  shows "\<exists>imax imin.
     first_max (map (\<lambda>r. Temperature r - sum_list (map Temperature df) / real (length df)) df) imax \<and>
     first_min (map (\<lambda>r. Temperature r - sum_list (map Temperature df) / real (length df)) df) imin \<and>
     uhi_analysis df =
       Inr \<lparr>mean_temp = sum_list (map Temperature df) / real (length df),
            df_uhi = map (\<lambda>r. (r, Temperature r - sum_list (map Temperature df) / real (length df))) df,
            hottest_district = map (\<lambda>r. (r, Temperature r - sum_list (map Temperature df) / real (length df))) df ! imax,
            coolest_district = map (\<lambda>r. (r, Temperature r - sum_list (map Temperature df) / real (length df))) df ! imin\<rparr>"
proof -
  let ?m = "sum_list (map Temperature df) / real (length df)"
  let ?an = "map (\<lambda>r. Temperature r - ?m) df"
  have ne: "?an \<noteq> []" using assms by simp
  obtain imax where imax: "idxmax ?an = Inr imax" "first_max ?an imax"
    using idxmax_first_max [OF ne] by blast
  obtain imin where imin: "idxmin ?an = Inr imin" "first_min ?an imin"
    using idxmin_first_min [OF ne] by blast
  have lmax: "imax < length df" using imax(2) by (simp add: first_max_def)
  have lmin: "imin < length df" using imin(2) by (simp add: first_min_def)
  have "uhi_analysis df =
       Inr \<lparr>mean_temp = ?m,
            df_uhi = map (\<lambda>r. (r, Temperature r - ?m)) df,
            hottest_district = map (\<lambda>r. (r, Temperature r - ?m)) df ! imax,
            coolest_district = map (\<lambda>r. (r, Temperature r - ?m)) df ! imin\<rparr>"
    using assms imax(1) imin(1) lmax lmin
    by (simp add: uhi_analysis_def column_def series_mean_def loc_def Let_def comp_def)
  with imax(2) imin(2) show ?thesis by blast
qed

lemma uhi_analysis_total:
  assumes "df \<noteq> []"
  shows "\<exists>s. uhi_analysis df = Inr s \<and>
     temp_anomaly df = Inr (map (\<lambda>r. Finite (Temperature r - mean_temp s)) df)"
proof -
  let ?m = "sum_list (map Temperature df) / real (length df)"
  obtain imax imin where
    s: "uhi_analysis df =
       Inr \<lparr>mean_temp = ?m,
            df_uhi = map (\<lambda>r. (r, Temperature r - ?m)) df,
            hottest_district = map (\<lambda>r. (r, Temperature r - ?m)) df ! imax,
            coolest_district = map (\<lambda>r. (r, Temperature r - ?m)) df ! imin\<rparr>"
    using uhi_analysis_nonempty [OF assms] by blast
  have "temp_anomaly df = Inr (map (\<lambda>r. Finite (Temperature r - ?m)) df)"
    using assms by (simp add: temp_anomaly_def column_def series_mean_def comp_def)
  then show ?thesis unfolding s by simp
qed

lemmas table_defs = district_table_def sample_weather_def locations_def make_row_def



text \<open>
  C6: the example of five districts at 41, 37, 33, 30 and 34 degrees, whatever their
  humidity and felt temperature: the mean is 35, the intensities are 6, 2, -2, -5 and
  -1, Delhi is the hottest and Faridabad the coolest district, and the alerts are
  extreme, high, normal, normal, normal.
\<close>

theorem end_to_end_example:
  "\<exists>s. uhi_analysis (district_table
         [\<lparr>temperature = 41, humidity = h1, feels_like = f1\<rparr>,
          \<lparr>temperature = 37, humidity = h2, feels_like = f2\<rparr>,
          \<lparr>temperature = 33, humidity = h3, feels_like = f3\<rparr>,
          \<lparr>temperature = 30, humidity = h4, feels_like = f4\<rparr>,
          \<lparr>temperature = 34, humidity = h5, feels_like = f5\<rparr>]) = Inr s \<and>
     map (District \<circ> fst) (df_uhi s) =
       [''Delhi'', ''Gurgaon'', ''Noida'', ''Faridabad'', ''Ghaziabad''] \<and>
     map (Temperature \<circ> fst) (df_uhi s) = [41, 37, 33, 30, 34] \<and>
     mean_temp s = 35 \<and>
     map snd (df_uhi s) = [6, 2, - 2, - 5, - 1] \<and>
     District (fst (hottest_district s)) = ''Delhi'' \<and>
     District (fst (coolest_district s)) = ''Faridabad'' \<and>
     map (heat_alert \<circ> Temperature \<circ> fst) (df_uhi s) =
       [EXTREME_HEAT, HIGH_HEAT, NORMAL, NORMAL, NORMAL]"
  by (simp add: district_table_def locations_def make_row_def uhi_analysis_def column_def
      series_mean_def idxmax_def idxmin_def loc_def heat_alert_def)

subsection \<open>Rounding errors of the mean and of the intensities\<close>

lemma round_err_nonneg: "0 \<le> M \<Longrightarrow> 0 \<le> round_err M"
  by (simp add: round_err_def)

lemma rounding_error:
  assumes "float64_rounding rnd" "\<bar>x\<bar> \<le> M"
  shows "\<bar>rnd x - x\<bar> \<le> round_err M"
proof -
  have "\<bar>rnd x - x\<bar> \<le> \<bar>x\<bar> / 2 ^ 53 + 1 / 2 ^ 1075"
    using assms(1) by (simp add: float64_rounding_def)
  also have "\<dots> \<le> M / 2 ^ 53 + 1 / 2 ^ 1075"
    using assms(2) by (simp add: divide_right_mono)
  finally show ?thesis by (simp add: round_err_def)
qed

lemma np_round_Finite:
  assumes "\<bar>x\<bar> \<le> M" "M < overflow_threshold"
  shows "np_round rnd (Finite x) = Finite (rnd x)"
  using assms by (auto simp: abs_le_iff)

lemma fp_add_Finite:
  assumes "\<bar>a + b\<bar> \<le> M" "M < overflow_threshold"
  shows "fp_add rnd (Finite a) (Finite b) = Finite (rnd (a + b))"
  using np_round_Finite [OF assms] by (simp add: fp_add_def)

lemma fp_sub_Finite:
  assumes "\<bar>a - b\<bar> \<le> M" "M < overflow_threshold"
  shows "fp_sub rnd (Finite a) (Finite b) = Finite (rnd (a - b))"
  using np_round_Finite [OF assms] by (simp add: fp_sub_def)

lemma fp_div_Finite:
  assumes "\<bar>a / b\<bar> \<le> M" "M < overflow_threshold" "b \<noteq> 0"
  shows "fp_div rnd (Finite a) (Finite b) = Finite (rnd (a / b))"
  using np_round_Finite [OF assms(1,2)] assms(3) by (simp add: fp_div_def)

lemma fp_fold_sum:
  assumes R: "float64_rounding rnd" and M: "M < overflow_threshold" "0 \<le> M"
  shows "\<bar>S0\<bar> + sum_list (map abs xs) + E0 + real (length xs) * round_err M \<le> M \<Longrightarrow>
     \<bar>s0 - S0\<bar> \<le> E0 \<Longrightarrow>
     \<exists>s. fold (\<lambda>y acc. fp_add rnd acc y) (map Finite xs) (Finite s0) = Finite s \<and>
         \<bar>s - (S0 + sum_list xs)\<bar> \<le> E0 + real (length xs) * round_err M"
proof (induction xs arbitrary: s0 S0 E0)
  case Nil
  then show ?case by simp
next
  case (Cons x xs)
  have e: "0 \<le> round_err M" by (rule round_err_nonneg [OF M(2)])
  have E0: "0 \<le> E0" using Cons.prems(2) by linarith
  have rest: "0 \<le> sum_list (map abs xs)"
    by (rule sum_list_nonneg) auto
  have len: "0 \<le> real (length xs) * round_err M" using e by simp
  have budget: "\<bar>S0\<bar> + \<bar>x\<bar> + sum_list (map abs xs) + E0 + real (length xs) * round_err M + round_err M \<le> M"
    using Cons.prems(1) by (simp add: algebra_simps)
  have mag: "\<bar>s0 + x\<bar> \<le> M"
  proof -
    have "\<bar>s0 + x\<bar> \<le> \<bar>s0 - S0\<bar> + \<bar>S0\<bar> + \<bar>x\<bar>" by linarith
    also have "\<dots> \<le> E0 + \<bar>S0\<bar> + \<bar>x\<bar>" using Cons.prems(2) by simp
    also have "\<dots> \<le> M" using budget rest len e by linarith
    finally show ?thesis .
  qed
  have step: "fp_add rnd (Finite s0) (Finite x) = Finite (rnd (s0 + x))"
    by (rule fp_add_Finite [OF mag M(1)])
  have r: "\<bar>rnd (s0 + x) - (s0 + x)\<bar> \<le> round_err M"
    by (rule rounding_error [OF R mag])
  have s1: "\<bar>rnd (s0 + x) - (S0 + x)\<bar> \<le> E0 + round_err M"
    using r Cons.prems(2) by linarith
  have budget1: "\<bar>S0 + x\<bar> + sum_list (map abs xs) + (E0 + round_err M) + real (length xs) * round_err M \<le> M"
  proof -
    have "\<bar>S0 + x\<bar> \<le> \<bar>S0\<bar> + \<bar>x\<bar>" by linarith
    then show ?thesis using budget by linarith
  qed
  from Cons.IH [OF budget1 s1] obtain s where
    s: "fold (\<lambda>y acc. fp_add rnd acc y) (map Finite xs) (Finite (rnd (s0 + x))) = Finite s"
    "\<bar>s - (S0 + x + sum_list xs)\<bar> \<le> E0 + round_err M + real (length xs) * round_err M"
    by blast
  have "fold (\<lambda>y acc. fp_add rnd acc y) (map Finite (x # xs)) (Finite s0) = Finite s"
    using s(1) step by simp
  moreover have "\<bar>s - (S0 + sum_list (x # xs))\<bar> \<le> E0 + real (length (x # xs)) * round_err M"
    using s(2) by (simp add: algebra_simps)
  ultimately show ?case by blast
qed

lemma fp_sum_error:
  assumes R: "float64_rounding rnd" and M: "M < overflow_threshold" "0 \<le> M"
    and ne: "xs \<noteq> []"
    and budget: "sum_list (map abs xs) + real (length xs - 1) * round_err M \<le> M"
  shows "\<exists>s. fp_sum rnd (map Finite xs) = Finite s \<and>
         \<bar>s - sum_list xs\<bar> \<le> real (length xs - 1) * round_err M"
proof -
  obtain x rest where xs: "xs = x # rest" using ne by (cases xs) auto
  have b: "\<bar>x\<bar> + sum_list (map abs rest) + 0 + real (length rest) * round_err M \<le> M"
    using budget by (simp add: xs)
  have z: "\<bar>x - x\<bar> \<le> 0" by simp
  from fp_fold_sum [OF R M b z] show ?thesis
    by (simp add: xs)
qed

lemma threshold_large: "1500000 < overflow_threshold"
proof -
  have a: "(2::real) ^ 21 \<le> 2 ^ 1023" by (rule power_increasing) simp_all
  have b: "(1::real) \<le> 2 - 1 / 2 ^ 53" by simp
  have "(1500000::real) < 1 * 2 ^ 21" by simp
  also have "\<dots> \<le> (2 - 1 / 2 ^ 53) * 2 ^ 1023"
    by (rule mult_mono [OF b a]) simp_all
  finally show ?thesis unfolding overflow_threshold_def .
qed

lemma tiny_le: "1 / (2::real) ^ 1075 \<le> 1 / 2 ^ 53"
proof (rule frac_le)
  show "(2::real) ^ 53 \<le> 2 ^ 1075" by (rule power_increasing) simp_all
  show "(0::real) < 2 ^ 53" by (rule zero_less_power) simp
qed simp_all

lemma round_err_small: "5 * round_err 1500000 \<le> 1 / 10 ^ 9" "round_err 1500000 \<le> 1" "0 \<le> round_err 1500000"
proof -
  define c :: real where "c = 1500000 / 2 ^ 53 + 1 / 2 ^ 53"
  have e: "round_err 1500000 \<le> c"
    unfolding round_err_def c_def using tiny_le by (rule add_left_mono)
  have c5: "5 * c \<le> 1 / 10 ^ 9" and c1: "c \<le> 1" by (simp_all add: c_def)
  from e have x: "5 * round_err 1500000 \<le> 5 * c" by simp
  show "5 * round_err 1500000 \<le> 1 / 10 ^ 9" by (rule order_trans [OF x c5])
  show "round_err 1500000 \<le> 1" by (rule order_trans [OF e c1])
  show "0 \<le> round_err 1500000" by (rule round_err_nonneg) simp
qed

lemma sum_list_abs_le:
  "\<forall>x \<in> set xs. \<bar>f x\<bar> \<le> c \<Longrightarrow> sum_list (map (\<lambda>x. \<bar>f x\<bar>) xs) \<le> real (length xs) * c"
  by (induction xs) (auto simp: algebra_simps)

lemma abs_sum_list_le:
  "\<forall>x \<in> set xs. \<bar>f x\<bar> \<le> c \<Longrightarrow> \<bar>sum_list (map f xs)\<bar> \<le> real (length xs) * (c::real)"
proof (induction xs)
  case Nil
  then show ?case by simp
next
  case (Cons x xs)
  then have "\<bar>f x\<bar> \<le> c" "\<bar>sum_list (map f xs)\<bar> \<le> real (length xs) * c" by simp_all
  then have "\<bar>f x + sum_list (map f xs)\<bar> \<le> c + real (length xs) * c" by linarith
  then show ?case by (simp add: algebra_simps)
qed

lemma sum_list_deviations:
  "sum_list (map (\<lambda>x. x - m) xs) = sum_list xs - real (length xs) * (m::real)"
  by (induction xs) (simp_all add: algebra_simps)

lemma sum_list_diff:
  "sum_list (map f xs) - sum_list (map g xs) = sum_list (map (\<lambda>x. f x - (g x::real)) xs)"
  by (induction xs) simp_all

lemma abs_div_le: "0 < n \<Longrightarrow> \<bar>x\<bar> \<le> n * c \<Longrightarrow> \<bar>x / n\<bar> \<le> (c::real)"
  by (simp add: pos_divide_le_eq mult.commute)

lemma abs_scaled_le:
  assumes "0 < n" "\<bar>m - S / n\<bar> \<le> (d::real)"
  shows "\<bar>S - n * m\<bar> \<le> n * d"
proof -
  have "S - n * m = n * (S / n - m)" using assms(1) by (simp add: field_simps)
  then have "\<bar>S - n * m\<bar> = n * \<bar>S / n - m\<bar>" using assms(1) by (simp add: abs_mult)
  also have "\<dots> \<le> n * d"
    using assms by (intro mult_left_mono) (simp_all add: abs_minus_commute)
  finally show ?thesis .
qed

lemma fp_mean_error:
  assumes R: "float64_rounding rnd" and M: "M < overflow_threshold" "0 \<le> M"
    and ne: "xs \<noteq> []"
    and c: "\<forall>x \<in> set xs. \<bar>x\<bar> \<le> c"
    and budget: "real (length xs) * (c + round_err M) \<le> M"
  shows "\<exists>m. fp_mean rnd (map Finite xs) = Finite m \<and>
     \<bar>m - sum_list xs / real (length xs)\<bar> \<le> 2 * round_err M"
proof -
  let ?n = "real (length xs)"
  let ?e = "round_err M"
  have n1: "1 \<le> ?n" using ne by (simp add: Suc_le_eq)
  have npos: "0 < ?n" using ne by simp
  have e0: "0 \<le> ?e" by (rule round_err_nonneg [OF M(2)])
  have c0: "0 \<le> c"
  proof -
    obtain x where "x \<in> set xs" using ne by (cases xs) auto
    then have "\<bar>x\<bar> \<le> c" using c by blast
    then show ?thesis by linarith
  qed
  have sabs: "sum_list (map abs xs) \<le> ?n * c"
    using sum_list_abs_le [of xs "\<lambda>x. x" c] c by simp
  have S: "\<bar>sum_list xs\<bar> \<le> ?n * c"
    using abs_sum_list_le [of xs "\<lambda>x. x" c] c by simp
  have le1: "real (length xs - 1) * ?e \<le> ?n * ?e"
    by (rule mult_right_mono [OF _ e0]) simp
  have bud: "?n * c + ?n * ?e \<le> M" using budget by (simp add: algebra_simps)
  have b: "sum_list (map abs xs) + real (length xs - 1) * ?e \<le> M"
    using sabs le1 bud by linarith
  obtain s where s: "fp_sum rnd (map Finite xs) = Finite s"
    "\<bar>s - sum_list xs\<bar> \<le> real (length xs - 1) * ?e"
    using fp_sum_error [OF R M ne b] by blast
  have sS: "\<bar>s - sum_list xs\<bar> \<le> ?n * ?e" using s(2) le1 by linarith
  have q1: "\<bar>(s - sum_list xs) / ?n\<bar> \<le> ?e"
    by (rule abs_div_le [OF npos sS])
  have sab: "\<bar>s\<bar> \<le> ?n * (c + ?e)"
  proof -
    have "\<bar>s\<bar> \<le> ?n * c + ?n * ?e" using S sS by linarith
    then show ?thesis by (simp add: algebra_simps)
  qed
  have q2: "\<bar>s / ?n\<bar> \<le> c + ?e"
    by (rule abs_div_le [OF npos sab])
  have "1 * (c + ?e) \<le> ?n * (c + ?e)"
    by (rule mult_right_mono [OF n1]) (use c0 e0 in simp)
  then have ce: "c + ?e \<le> ?n * (c + ?e)" by simp
  have mag: "\<bar>s / ?n\<bar> \<le> M"
    by (rule order_trans [OF q2 order_trans [OF ce budget]])
  have n0: "?n \<noteq> 0" using ne by simp
  have d: "fp_div rnd (Finite s) (Finite ?n) = Finite (rnd (s / ?n))"
    by (rule fp_div_Finite [OF mag M(1) n0])
  have r: "\<bar>rnd (s / ?n) - s / ?n\<bar> \<le> ?e"
    by (rule rounding_error [OF R mag])
  have "s / ?n - sum_list xs / ?n = (s - sum_list xs) / ?n"
    by (simp add: diff_divide_distrib)
  then have "\<bar>rnd (s / ?n) - sum_list xs / ?n\<bar> \<le> 2 * ?e" using r q1 by linarith
  moreover have "fp_mean rnd (map Finite xs) = Finite (rnd (s / ?n))"
    using ne s(1) d by (simp add: fp_mean_def)
  ultimately show ?thesis by blast
qed

text \<open>
  C1, for tables of at most seven rows whose temperatures have magnitude at most
  100000, under every rounding with the float64 error bound: the mean of line 402 is
  a finite float within 1e-9 of the arithmetic mean of the temperature column; each
  intensity of line 404 is the rounded difference of the temperature and that mean,
  within 1e-9 of the exact difference; the mean of the intensities is within 1e-9 of
  0, both when it is computed exactly and when it is computed in float64 as the mean
  of line 402 is.
\<close>

theorem uhi_intensity_tolerance:
  assumes R: "float64_rounding rnd" and ne: "df \<noteq> []" and len: "length df \<le> 7"
    and T: "\<forall>r \<in> set df. \<bar>Temperature r\<bar> \<le> 100000"
  shows "\<exists>m an r. fp_uhi_intensity rnd df = Inr (Finite m, map Finite an) \<and>
     \<bar>m - sum_list (map Temperature df) / real (length df)\<bar> \<le> 1 / 10 ^ 9 \<and>
     an = map (\<lambda>r. rnd (Temperature r - m)) df \<and>
     (\<forall>i<length df. \<bar>an ! i - (Temperature (df ! i) - m)\<bar> \<le> 1 / 10 ^ 9) \<and>
     \<bar>sum_list an / real (length an)\<bar> \<le> 1 / 10 ^ 9 \<and>
     fp_mean rnd (map Finite an) = Finite r \<and> \<bar>r\<bar> \<le> 1 / 10 ^ 9"
proof -
  let ?e = "round_err 1500000"
  let ?ts = "map Temperature df"
  let ?n = "real (length df)"
  note M = threshold_large
  have M0: "(0::real) \<le> 1500000" by simp
  have e0: "0 \<le> ?e" and e1: "?e \<le> 1" and e5: "5 * ?e \<le> 1 / 10 ^ 9"
    by (rule round_err_small)+
  have n1: "1 \<le> ?n" using ne by (simp add: Suc_le_eq)
  have n7: "?n \<le> 7" using len by simp
  have npos: "0 < ?n" using ne by simp
  have c1: "\<forall>x \<in> set ?ts. \<bar>x\<bar> \<le> 100000" using T by simp
  have b1: "real (length ?ts) * (100000 + ?e) \<le> 1500000"
  proof -
    have "?n * (100000 + ?e) \<le> 7 * (100000 + 1)"
      by (rule mult_mono) (use n7 e0 e1 in simp_all)
    then show ?thesis by simp
  qed
  have ne1: "?ts \<noteq> []" using ne by simp
  obtain m where m: "fp_mean rnd (map Finite ?ts) = Finite m"
    and mS: "\<bar>m - sum_list ?ts / ?n\<bar> \<le> 2 * ?e"
    using fp_mean_error [OF R M M0 ne1 c1 b1] by auto
  have Sn: "\<bar>sum_list ?ts / ?n\<bar> \<le> 100000"
  proof (rule abs_div_le [OF npos])
    show "\<bar>sum_list ?ts\<bar> \<le> ?n * 100000"
      using abs_sum_list_le [of df Temperature 100000] T by simp
  qed
  have mb: "\<bar>m\<bar> \<le> 100000 + 2 * ?e" using mS Sn by linarith
  have mag: "\<bar>Temperature r - m\<bar> \<le> 1500000" if "r \<in> set df" for r
  proof -
    have "\<bar>Temperature r\<bar> \<le> 100000" using T that by blast
    then show ?thesis using mb e1 by linarith
  qed
  have sub: "fp_sub rnd (Finite (Temperature r)) (Finite m) = Finite (rnd (Temperature r - m))"
    if "r \<in> set df" for r
    by (rule fp_sub_Finite [OF mag [OF that] M])
  have rd: "\<bar>rnd (Temperature r - m) - (Temperature r - m)\<bar> \<le> ?e" if "r \<in> set df" for r
    by (rule rounding_error [OF R mag [OF that]])
  let ?an = "map (\<lambda>r. rnd (Temperature r - m)) df"
  have uhi: "fp_uhi_intensity rnd df = Inr (Finite m, map Finite ?an)"
    using ne m sub by (simp add: fp_uhi_intensity_def column_def comp_def Let_def)
  have each: "\<forall>i<length df. \<bar>?an ! i - (Temperature (df ! i) - m)\<bar> \<le> 1 / 10 ^ 9"
  proof (intro allI impI)
    fix i assume i: "i < length df"
    then have "\<bar>rnd (Temperature (df ! i) - m) - (Temperature (df ! i) - m)\<bar> \<le> ?e"
      using rd [of "df ! i"] by simp
    then show "\<bar>?an ! i - (Temperature (df ! i) - m)\<bar> \<le> 1 / 10 ^ 9"
      using i e0 e5 by simp
  qed
  have dev: "\<bar>sum_list (map (\<lambda>r. rnd (Temperature r - m) - (Temperature r - m)) df)\<bar>
      \<le> ?n * ?e"
    using abs_sum_list_le [of df "\<lambda>r. rnd (Temperature r - m) - (Temperature r - m)" ?e] rd
    by blast
  have split: "sum_list ?an - sum_list (map (\<lambda>r. Temperature r - m) df) =
      sum_list (map (\<lambda>r. rnd (Temperature r - m) - (Temperature r - m)) df)"
    by (rule sum_list_diff)
  have exact: "sum_list (map (\<lambda>r. Temperature r - m) df) = sum_list ?ts - ?n * m"
    using sum_list_deviations [of m ?ts] by (simp add: comp_def)
  have centre: "\<bar>sum_list ?ts - ?n * m\<bar> \<le> ?n * (2 * ?e)"
    by (rule abs_scaled_le [OF npos mS])
  have total: "\<bar>sum_list ?an\<bar> \<le> ?n * (3 * ?e)"
  proof -
    have "\<bar>sum_list ?an\<bar> \<le> ?n * ?e + ?n * (2 * ?e)"
      using dev split exact centre by linarith
    then show ?thesis by (simp add: algebra_simps)
  qed
  have mean_an: "\<bar>sum_list ?an / real (length ?an)\<bar> \<le> 3 * ?e"
    using abs_div_le [OF npos total] by simp
  have c2: "\<forall>a \<in> set ?an. \<bar>a\<bar> \<le> 200003"
  proof
    fix a assume "a \<in> set ?an"
    then obtain r where r: "r \<in> set df" "a = rnd (Temperature r - m)" by auto
    have "\<bar>Temperature r\<bar> \<le> 100000" using T r(1) by blast
    then show "\<bar>a\<bar> \<le> 200003" using rd [OF r(1)] mb e1 r(2) by linarith
  qed
  have b2: "real (length ?an) * (200003 + ?e) \<le> 1500000"
  proof -
    have "?n * (200003 + ?e) \<le> 7 * (200003 + 1)"
      by (rule mult_mono) (use n7 e0 e1 in simp_all)
    then show ?thesis by simp
  qed
  have ne2: "?an \<noteq> []" using ne by simp
  obtain r where r: "fp_mean rnd (map Finite ?an) = Finite r"
    and rS: "\<bar>r - sum_list ?an / real (length ?an)\<bar> \<le> 2 * ?e"
    using fp_mean_error [OF R M M0 ne2 c2 b2] by auto
  have rb: "\<bar>r\<bar> \<le> 1 / 10 ^ 9" using rS mean_an e5 by linarith
  have mean_b: "\<bar>m - sum_list ?ts / ?n\<bar> \<le> 1 / 10 ^ 9" using mS e0 e5 by linarith
  have an_b: "\<bar>sum_list ?an / real (length ?an)\<bar> \<le> 1 / 10 ^ 9"
    using mean_an e0 e5 by linarith
  show ?thesis
    using uhi mean_b each an_b r rb
    by (intro exI [of _ m] exI [of _ ?an] exI [of _ r]) simp
qed

lemma overflow_double: "overflow_threshold \<le> 2 ^ 1023 + 2 ^ 1023"
proof -
  have "(2 - 1 / 2 ^ 53) * (2::real) ^ 1023 \<le> 2 * 2 ^ 1023"
    by (rule mult_right_mono) simp_all
  then show ?thesis by (simp add: overflow_threshold_def)
qed

lemma uhi_intensity_overflows:
  assumes "overflow_threshold \<le> t + t"
  shows "fp_uhi_intensity rnd (district_table (map sample_weather [t, t, t, t, t])) =
     Inr (PosInf, [NegInf, NegInf, NegInf, NegInf, NegInf])"
proof -
  have a: "fp_add rnd (Finite t) (Finite t) = PosInf"
    using assms by (simp add: fp_add_def)
  have s: "fp_sum rnd (map Finite [t, t, t, t, t]) = PosInf"
    by (simp add: a) (simp add: fp_add_def)
  have m: "fp_mean rnd (map Finite [t, t, t, t, t]) = PosInf"
    unfolding fp_mean_def s by (simp add: fp_div_def)
  have t: "map Temperature (district_table (map sample_weather [t, t, t, t, t])) =
      [t, t, t, t, t]"
    by (simp add: table_defs)
  have ne: "district_table (map sample_weather [t, t, t, t, t]) \<noteq> []"
    by (simp add: table_defs)
  show ?thesis
    unfolding fp_uhi_intensity_def column_def t using m ne
    by (simp add: fp_sub_def)
qed

text \<open>
  C1 as stated, for every non-empty table, fails: with five temperatures of
  \<open>2^1023\<close> the sum overflows at the second entry, the mean is \<open>inf\<close>, every intensity
  is \<open>-inf\<close> and so is their mean, whatever the rounding of finite results.
\<close>

theorem uhi_intensity_overflow:
  "\<forall>rnd. fp_uhi_intensity rnd
       (district_table (map sample_weather [2 ^ 1023, 2 ^ 1023, 2 ^ 1023, 2 ^ 1023, 2 ^ 1023])) =
       Inr (PosInf, [NegInf, NegInf, NegInf, NegInf, NegInf]) \<and>
     fp_mean rnd [NegInf, NegInf, NegInf, NegInf, NegInf] = NegInf"
proof (intro allI conjI)
  fix rnd :: "real \<Rightarrow> real"
  show "fp_uhi_intensity rnd
       (district_table (map sample_weather [2 ^ 1023, 2 ^ 1023, 2 ^ 1023, 2 ^ 1023, 2 ^ 1023])) =
       Inr (PosInf, [NegInf, NegInf, NegInf, NegInf, NegInf])"
    by (rule uhi_intensity_overflows [OF overflow_double])
  show "fp_mean rnd [NegInf, NegInf, NegInf, NegInf, NegInf] = NegInf"
    by (simp add: fp_mean_def fp_add_def fp_div_def)
qed


lemma threshold_small:
  "x \<le> 1500000 \<Longrightarrow> \<not> overflow_threshold \<le> x"
  "- 1500000 \<le> x \<Longrightarrow> \<not> x \<le> - overflow_threshold"
  using threshold_large by simp_all

text \<open>
  The bound at the example of the specification, where no operation rounds: the mean
  is 35 and the intensities are 6, 2, -2, -5 and -1.
\<close>

theorem uhi_intensity_tolerance_witness:
  "float64_rounding (\<lambda>x. x) \<and>
   length (district_table (map sample_weather [41, 37, 33, 30, 34])) = 5 \<and>
   (\<exists>m an r.
      fp_uhi_intensity (\<lambda>x. x) (district_table (map sample_weather [41, 37, 33, 30, 34])) =
        Inr (Finite m, map Finite an) \<and>
      m = 35 \<and> an = [6, 2, - 2, - 5, - 1] \<and>
      fp_mean (\<lambda>x. x) (map Finite an) = Finite r \<and> \<bar>r\<bar> \<le> 1 / 10 ^ 9)"
proof -
  let ?df = "district_table (map sample_weather [41, 37, 33, 30, 34])"
  have R: "float64_rounding (\<lambda>x. x)" by (simp add: float64_rounding_def)
  have ne: "?df \<noteq> []" and len: "length ?df \<le> 7" and len5: "length ?df = 5"
    by (simp_all add: table_defs)
  have T: "\<forall>r \<in> set ?df. \<bar>Temperature r\<bar> \<le> 100000" by (simp add: table_defs)
  from uhi_intensity_tolerance [OF R ne len T] obtain m an r where
    u: "fp_uhi_intensity (\<lambda>x. x) ?df = Inr (Finite m, map Finite an)"
    and m: "\<bar>m - sum_list (map Temperature ?df) / real (length ?df)\<bar> \<le> 1 / 10 ^ 9"
    and an: "an = map (\<lambda>r. Temperature r - m) ?df"
    and r: "fp_mean (\<lambda>x. x) (map Finite an) = Finite r" "\<bar>r\<bar> \<le> 1 / 10 ^ 9"
    by blast
  have "fp_mean (\<lambda>x. x) (map Finite (map Temperature ?df)) = Finite 35"
    by (simp add: table_defs fp_mean_def fp_div_def fp_add_def threshold_small)
  then have "fp_uhi_intensity (\<lambda>x. x) ?df = Inr (Finite 35, map Finite [6, 2, - 2, - 5, - 1])"
    by (simp add: fp_uhi_intensity_def column_def table_defs fp_sub_def threshold_small)
  with u have m35: "m = 35" by simp
  have "an = [6, 2, - 2, - 5, - 1]" unfolding an m35 by (simp add: table_defs)
  with R len5 u m35 r show ?thesis by blast
qed

section \<open>Properties of the heat distribution map\<close>

lemma series_max_Max: "xs \<noteq> [] \<Longrightarrow> series_max xs = Finite (Max (set xs))"
  by (cases xs) (simp_all add: Max.set_eq_fold [symmetric])

lemma series_min_Min: "xs \<noteq> [] \<Longrightarrow> series_min xs = Finite (Min (set xs))"
  by (cases xs) (simp_all add: Min.set_eq_fold [symmetric])

text \<open>
  C10: on a table with at least one row the normalised temperature is
  (temperature - min) / (max - min) whenever the maximum and the minimum of the column
  differ. When every row has the same temperature the denominator is 0, the division
  gives \<open>nan\<close>, no comparison holds and every marker is red.
\<close>

theorem temp_normalized_division:
  assumes "df \<noteq> []"
  shows "(Max (Temperature ` set df) \<noteq> Min (Temperature ` set df) \<longrightarrow>
       temp_normalized df row =
         Finite ((Temperature row - Min (Temperature ` set df)) /
                 (Max (Temperature ` set df) - Min (Temperature ` set df)))) \<and>
     ((\<forall>r \<in> set df. Temperature r = Temperature row) \<longrightarrow>
       Max (Temperature ` set df) - Min (Temperature ` set df) = 0 \<and>
       temp_normalized df row = NaN \<and>
       marker_color (temp_normalized df row) = ''red'' \<and>
       heat_map_markers df = map (\<lambda>r. (District r, ''red'')) df)"
proof -
  let ?mx = "Max (Temperature ` set df)" and ?mn = "Min (Temperature ` set df)"
  have tn: "temp_normalized df row =
      np_div (Finite (Temperature row - ?mn)) (Finite (?mx - ?mn))" for row
    using assms by (simp add: temp_normalized_def series_max_Max series_min_Min)
  have a: "?mx \<noteq> ?mn \<longrightarrow> temp_normalized df row =
         Finite ((Temperature row - ?mn) / (?mx - ?mn))"
    by (simp add: tn)
  have b: "(\<forall>r \<in> set df. Temperature r = Temperature row) \<longrightarrow>
       ?mx - ?mn = 0 \<and> temp_normalized df row = NaN \<and>
       marker_color (temp_normalized df row) = ''red'' \<and>
       heat_map_markers df = map (\<lambda>r. (District r, ''red'')) df"
  proof
    assume same: "\<forall>r \<in> set df. Temperature r = Temperature row"
    then have img: "Temperature ` set df = {Temperature row}"
      using assms by (cases df) auto
    have mxv: "?mx = Temperature row" and mnv: "?mn = Temperature row"
      by (simp_all add: img)
    have nan: "temp_normalized df r = NaN" if "r \<in> set df" for r
    proof -
      from that same have "Temperature r = Temperature row" by blast
      then show ?thesis by (simp add: tn mxv mnv)
    qed
    have here: "temp_normalized df row = NaN"
      by (simp add: tn mxv mnv)
    have markers: "heat_map_markers df = map (\<lambda>r. (District r, ''red'')) df"
      by (simp add: heat_map_markers_def nan marker_color_def cong: map_cong)
    show "?mx - ?mn = 0 \<and> temp_normalized df row = NaN \<and>
       marker_color (temp_normalized df row) = ''red'' \<and>
       heat_map_markers df = map (\<lambda>r. (District r, ''red'')) df"
      using markers by (simp add: mxv mnv here marker_color_def)
  qed
  from a b show ?thesis by blast
qed

theorem temp_normalized_division_witness:
  "district_table (map sample_weather [30, 30]) \<noteq> [] \<and>
   temp_normalized (district_table (map sample_weather [30, 30]))
     (make_row (''Delhi'', 28.6139, 77.2090) (sample_weather 30)) = NaN \<and>
   heat_map_markers (district_table (map sample_weather [30, 30])) =
     [(''Delhi'', ''red''), (''Gurgaon'', ''red'')] \<and>
   district_table (map sample_weather [30, 40]) \<noteq> [] \<and>
   temp_normalized (district_table (map sample_weather [30, 40]))
     (make_row (''Delhi'', 28.6139, 77.2090) (sample_weather 30)) = Finite 0"
proof -
  let ?same = "district_table (map sample_weather [30, 30])"
  let ?diff = "district_table (map sample_weather [30, 40])"
  let ?row = "make_row (''Delhi'', 28.6139, 77.2090) (sample_weather 30)"
  have h1: "?same \<noteq> []" and h2: "?diff \<noteq> []" by (simp_all add: table_defs)
  have all_same: "\<forall>r \<in> set ?same. Temperature r = Temperature ?row"
    by (simp add: table_defs)
  have differ: "Max (Temperature ` set ?diff) \<noteq> Min (Temperature ` set ?diff)"
    by (simp add: table_defs)
  from temp_normalized_division [OF h1, of ?row] all_same
  have "temp_normalized ?same ?row = NaN \<and>
        heat_map_markers ?same = map (\<lambda>r. (District r, ''red'')) ?same"
    by blast
  moreover have "map (\<lambda>r. (District r, ''red'')) ?same =
      [(''Delhi'', ''red''), (''Gurgaon'', ''red'')]"
    by (simp add: table_defs)
  moreover from temp_normalized_division [OF h2, of ?row] differ
  have "temp_normalized ?diff ?row =
         Finite ((Temperature ?row - Min (Temperature ` set ?diff)) /
                 (Max (Temperature ` set ?diff) - Min (Temperature ` set ?diff)))"
    by blast
  then have "temp_normalized ?diff ?row = Finite 0"
    by (simp add: table_defs)
  ultimately show ?thesis using h1 h2 by simp
qed

section \<open>Properties of a run\<close>

subsection \<open>The loops over the locations\<close>

lemma http_gets_emit [simp]: "http_gets (emit evs st) = http_gets st"
  by (simp add: emit_def)

lemma page_emit [simp]: "page (emit evs st) = page st @ evs"
  by (simp add: emit_def)

lemma get_weather_eq:
  "get_weather env lat lon st =
     (read_weather (weather_api env (length (http_gets st))),
      st\<lparr>http_gets := http_gets st @ [request_of env (name, lat, lon)]\<rparr>)"
  by (simp add: get_weather_def request_of_def)

lemma length_locations: "length locations = 5"
  by (simp add: locations_def)

lemma fetch_error_None:
  "fetch_error env k = None \<longleftrightarrow> (\<exists>w. read_weather (weather_api env k) = Inr w)"
  by (simp add: fetch_error_def split: sum.splits)

lemma fetch_error_Some:
  "fetch_error env k = Some e \<longleftrightarrow> read_weather (weather_api env k) = Inl e"
  by (simp add: fetch_error_def split: sum.splits)

lemma marker_error_None:
  "marker_error env k = None \<longleftrightarrow>
     (\<exists>w t. read_weather (weather_api env k) = Inr w \<and> py_number (temperature w) = Some t)"
  by (auto simp: marker_error_def split: sum.splits option.splits)

lemma marker_error_fetch:
  "fetch_error env k = Some e \<Longrightarrow> marker_error env k = Some e"
  by (simp add: fetch_error_def marker_error_def split: sum.splits)

lemma weather_ok_fetch: "weather_ok env k \<Longrightarrow> fetch_error env k = None"
  by (simp add: weather_ok_def fetch_error_def split: sum.splits)

lemma json_num_py_number: "json_num v = Some t \<Longrightarrow> py_number v = Some t"
  by (cases v) simp_all

lemma weather_ok_marker: "weather_ok env k \<Longrightarrow> marker_error env k = None"
  by (auto simp: weather_ok_def marker_error_def numeric_weather_def
      split: sum.splits option.splits dest: json_num_py_number)

lemma weather_ok_numeric:
  "weather_ok env k \<Longrightarrow>
   \<exists>w v. read_weather (weather_api env k) = Inr w \<and> numeric_weather w = Some v"
  by (auto simp: weather_ok_def split: sum.splits option.splits)

lemma marker_loop_step:
  assumes "read_weather (weather_api env (length (http_gets st))) = Inr w"
    and "py_number (temperature w) = Some t"
  shows "marker_loop env ((name, lat, lon) # ls) st =
     marker_loop env ls
       (emit [Marker name (heat_alert t) (if t \<ge> 35 then ''red'' else ''green'')]
          (st\<lparr>http_gets := http_gets st @ [request_of env (name, lat, lon)]\<rparr>))"
  using assms by (simp add: get_weather_eq [where name = name] py_heat_alert_def)

lemma marker_loop_stop:
  assumes "marker_error env (length (http_gets st)) = Some e"
  shows "marker_loop env ((name, lat, lon) # ls) st =
     (Inl e, st\<lparr>http_gets := http_gets st @ [request_of env (name, lat, lon)]\<rparr>)"
  using assms
  by (auto simp: get_weather_eq [where name = name] py_heat_alert_def marker_error_def
      split: sum.splits option.splits)

lemma marker_loop_ok:
  "\<forall>j<length ls. marker_error env (length (http_gets st) + j) = None \<Longrightarrow>
   \<exists>st'. marker_loop env ls st = (Inr (), st') \<and>
         http_gets st' = http_gets st @ map (request_of env) ls"
proof (induction ls arbitrary: st)
  case Nil
  then show ?case by simp
next
  case (Cons l ls)
  obtain name lat lon where l: "l = (name, lat, lon)" by (cases l)
  from Cons.prems have "marker_error env (length (http_gets st) + 0) = None" by fastforce
  then obtain w t where w: "read_weather (weather_api env (length (http_gets st))) = Inr w"
    "py_number (temperature w) = Some t"
    by (auto simp: marker_error_None)
  let ?st = "emit [Marker name (heat_alert t) (if t \<ge> 35 then ''red'' else ''green'')]
               (st\<lparr>http_gets := http_gets st @ [request_of env l]\<rparr>)"
  have step: "marker_loop env (l # ls) st = marker_loop env ls ?st"
    unfolding l by (rule marker_loop_step [OF w])
  have "\<forall>j<length ls. marker_error env (length (http_gets ?st) + j) = None"
  proof (intro allI impI)
    fix j assume "j < length ls"
    then have "marker_error env (length (http_gets st) + Suc j) = None"
      using Cons.prems by fastforce
    then show "marker_error env (length (http_gets ?st) + j) = None" by simp
  qed
  from Cons.IH [OF this] show ?case
    unfolding step by auto
qed

lemma marker_loop_fails:
  "k < length ls \<Longrightarrow> \<forall>j<k. marker_error env (length (http_gets st) + j) = None \<Longrightarrow>
   marker_error env (length (http_gets st) + k) = Some e \<Longrightarrow>
   \<exists>st'. marker_loop env ls st = (Inl e, st') \<and>
         http_gets st' = http_gets st @ map (request_of env) (take (Suc k) ls)"
proof (induction ls arbitrary: st k)
  case Nil
  then show ?case by simp
next
  case (Cons l ls)
  obtain name lat lon where l: "l = (name, lat, lon)" by (cases l)
  show ?case
  proof (cases k)
    case 0
    then have "marker_error env (length (http_gets st)) = Some e"
      using Cons.prems(3) by simp
    from marker_loop_stop [OF this, of name lat lon ls] show ?thesis
      using 0 by (simp add: l)
  next
    case (Suc k')
    from Cons.prems(2) Suc have "marker_error env (length (http_gets st) + 0) = None"
      by fastforce
    then obtain w t where w: "read_weather (weather_api env (length (http_gets st))) = Inr w"
      "py_number (temperature w) = Some t"
      by (auto simp: marker_error_None)
    let ?st = "emit [Marker name (heat_alert t) (if t \<ge> 35 then ''red'' else ''green'')]
                 (st\<lparr>http_gets := http_gets st @ [request_of env l]\<rparr>)"
    have step: "marker_loop env (l # ls) st = marker_loop env ls ?st"
      unfolding l by (rule marker_loop_step [OF w])
    have k': "k' < length ls" using Cons.prems(1) Suc by simp
    have ok: "\<forall>j<k'. marker_error env (length (http_gets ?st) + j) = None"
    proof (intro allI impI)
      fix j assume "j < k'"
      then have "marker_error env (length (http_gets st) + Suc j) = None"
        using Cons.prems(2) Suc by fastforce
      then show "marker_error env (length (http_gets ?st) + j) = None" by simp
    qed
    have bad: "marker_error env (length (http_gets ?st) + k') = Some e"
      using Cons.prems(3) Suc by simp
    from Cons.IH [OF k' ok bad] show ?thesis
      unfolding step using Suc by auto
  qed
qed

lemma marker_loop_page:
  "marker_loop env ls st = (r, st') \<Longrightarrow> \<exists>evs. page st' = page st @ evs"
proof (induction ls arbitrary: st)
  case Nil
  then show ?case by simp
next
  case (Cons l ls)
  obtain name lat lon where l: "l = (name, lat, lon)" by (cases l)
  show ?case
  proof (cases "marker_error env (length (http_gets st))")
    case (Some e)
    from marker_loop_stop [OF this, of name lat lon ls] show ?thesis
      using Cons.prems by (auto simp: l)
  next
    case None
    then obtain w t where w: "read_weather (weather_api env (length (http_gets st))) = Inr w"
      "py_number (temperature w) = Some t"
      by (auto simp: marker_error_None)
    from marker_loop_step [OF w, of name lat lon ls] Cons.prems
    have "marker_loop env ls
       (emit [Marker name (heat_alert t) (if t \<ge> 35 then ''red'' else ''green'')]
          (st\<lparr>http_gets := http_gets st @ [request_of env (name, lat, lon)]\<rparr>)) = (r, st')"
      by (simp add: l)
    from Cons.IH [OF this] show ?thesis by auto
  qed
qed

lemma marker_loop_gets:
  "marker_loop env ls st = (r, st') \<Longrightarrow>
   \<exists>n. n \<le> length ls \<and> (ls \<noteq> [] \<longrightarrow> 0 < n) \<and>
       http_gets st' = http_gets st @ map (request_of env) (take n ls)"
proof (induction ls arbitrary: st)
  case Nil
  then show ?case by simp
next
  case (Cons l ls)
  obtain name lat lon where l: "l = (name, lat, lon)" by (cases l)
  show ?case
  proof (cases "marker_error env (length (http_gets st))")
    case (Some e)
    from marker_loop_stop [OF this, of name lat lon ls] Cons.prems
    have "http_gets st' = http_gets st @ map (request_of env) (take 1 (l # ls))"
      by (auto simp: l)
    then show ?thesis by (intro exI [of _ 1]) simp
  next
    case None
    then obtain w t where w: "read_weather (weather_api env (length (http_gets st))) = Inr w"
      "py_number (temperature w) = Some t"
      by (auto simp: marker_error_None)
    from marker_loop_step [OF w, of name lat lon ls] Cons.prems
    have "marker_loop env ls
       (emit [Marker name (heat_alert t) (if t \<ge> 35 then ''red'' else ''green'')]
          (st\<lparr>http_gets := http_gets st @ [request_of env (name, lat, lon)]\<rparr>)) = (r, st')"
      by (simp add: l)
    from Cons.IH [OF this] obtain n where n: "n \<le> length ls"
      "http_gets st' = (http_gets st @ [request_of env l]) @ map (request_of env) (take n ls)"
      by (auto simp: l)
    then have "http_gets st' = http_gets st @ map (request_of env) (take (Suc n) (l # ls))"
      by simp
    with n(1) show ?thesis by (intro exI [of _ "Suc n"]) simp
  qed
qed

lemma alerts_loop_step:
  assumes "read_weather (weather_api env (length (http_gets st))) = Inr w"
  shows "alerts_loop env ((name, lat, lon) # ls) st =
     alerts_loop env ls
       (emit [St_write name w]
          (st\<lparr>http_gets := http_gets st @ [request_of env (name, lat, lon)]\<rparr>))"
  using assms by (simp add: get_weather_eq [where name = name])

lemma alerts_loop_stop:
  assumes "fetch_error env (length (http_gets st)) = Some e"
  shows "alerts_loop env ((name, lat, lon) # ls) st =
     (Inl e, st\<lparr>http_gets := http_gets st @ [request_of env (name, lat, lon)]\<rparr>)"
  using assms by (simp add: get_weather_eq [where name = name] fetch_error_Some)

lemma alerts_loop_ok:
  "\<forall>j<length ls. fetch_error env (length (http_gets st) + j) = None \<Longrightarrow>
   \<exists>st'. alerts_loop env ls st = (Inr (), st') \<and>
         http_gets st' = http_gets st @ map (request_of env) ls"
proof (induction ls arbitrary: st)
  case Nil
  then show ?case by simp
next
  case (Cons l ls)
  obtain name lat lon where l: "l = (name, lat, lon)" by (cases l)
  from Cons.prems have "fetch_error env (length (http_gets st) + 0) = None" by fastforce
  then obtain w where w: "read_weather (weather_api env (length (http_gets st))) = Inr w"
    by (auto simp: fetch_error_None)
  let ?st = "emit [St_write name w] (st\<lparr>http_gets := http_gets st @ [request_of env l]\<rparr>)"
  have step: "alerts_loop env (l # ls) st = alerts_loop env ls ?st"
    unfolding l by (rule alerts_loop_step [OF w])
  have "\<forall>j<length ls. fetch_error env (length (http_gets ?st) + j) = None"
  proof (intro allI impI)
    fix j assume "j < length ls"
    then have "fetch_error env (length (http_gets st) + Suc j) = None"
      using Cons.prems by fastforce
    then show "fetch_error env (length (http_gets ?st) + j) = None" by simp
  qed
  from Cons.IH [OF this] show ?case
    unfolding step by auto
qed

lemma alerts_loop_fails:
  "k < length ls \<Longrightarrow> \<forall>j<k. fetch_error env (length (http_gets st) + j) = None \<Longrightarrow>
   fetch_error env (length (http_gets st) + k) = Some e \<Longrightarrow>
   \<exists>st'. alerts_loop env ls st = (Inl e, st') \<and>
         http_gets st' = http_gets st @ map (request_of env) (take (Suc k) ls)"
proof (induction ls arbitrary: st k)
  case Nil
  then show ?case by simp
next
  case (Cons l ls)
  obtain name lat lon where l: "l = (name, lat, lon)" by (cases l)
  show ?case
  proof (cases k)
    case 0
    then have "fetch_error env (length (http_gets st)) = Some e"
      using Cons.prems(3) by simp
    from alerts_loop_stop [OF this, of name lat lon ls] show ?thesis
      using 0 by (simp add: l)
  next
    case (Suc k')
    from Cons.prems(2) Suc have "fetch_error env (length (http_gets st) + 0) = None"
      by fastforce
    then obtain w where w: "read_weather (weather_api env (length (http_gets st))) = Inr w"
      by (auto simp: fetch_error_None)
    let ?st = "emit [St_write name w] (st\<lparr>http_gets := http_gets st @ [request_of env l]\<rparr>)"
    have step: "alerts_loop env (l # ls) st = alerts_loop env ls ?st"
      unfolding l by (rule alerts_loop_step [OF w])
    have k': "k' < length ls" using Cons.prems(1) Suc by simp
    have ok: "\<forall>j<k'. fetch_error env (length (http_gets ?st) + j) = None"
    proof (intro allI impI)
      fix j assume "j < k'"
      then have "fetch_error env (length (http_gets st) + Suc j) = None"
        using Cons.prems(2) Suc by fastforce
      then show "fetch_error env (length (http_gets ?st) + j) = None" by simp
    qed
    have bad: "fetch_error env (length (http_gets ?st) + k') = Some e"
      using Cons.prems(3) Suc by simp
    from Cons.IH [OF k' ok bad] show ?thesis
      unfolding step using Suc by auto
  qed
qed

text \<open>Whatever the answers, a loop only adds to the page and to the requests.\<close>

lemma alerts_loop_grows:
  "alerts_loop env ls st = (r, st') \<Longrightarrow>
   (\<exists>evs. page st' = page st @ evs) \<and>
   (\<exists>n. n \<le> length ls \<and> (ls \<noteq> [] \<longrightarrow> 0 < n) \<and>
       http_gets st' = http_gets st @ map (request_of env) (take n ls))"
proof (induction ls arbitrary: st)
  case Nil
  then show ?case by simp
next
  case (Cons l ls)
  obtain name lat lon where l: "l = (name, lat, lon)" by (cases l)
  show ?case
  proof (cases "fetch_error env (length (http_gets st))")
    case (Some e)
    from alerts_loop_stop [OF this, of name lat lon ls] Cons.prems
    have st': "st' = st\<lparr>http_gets := http_gets st @ [request_of env l]\<rparr>"
      by (auto simp: l)
    then have "http_gets st' = http_gets st @ map (request_of env) (take 1 (l # ls))"
      and "page st' = page st @ []"
      by simp_all
    then show ?thesis by (intro conjI exI [of _ 1] exI [of _ "[]"]) simp_all
  next
    case None
    then obtain w where w: "read_weather (weather_api env (length (http_gets st))) = Inr w"
      by (auto simp: fetch_error_None)
    from alerts_loop_step [OF w, of name lat lon ls] Cons.prems
    have "alerts_loop env ls
       (emit [St_write name w]
          (st\<lparr>http_gets := http_gets st @ [request_of env (name, lat, lon)]\<rparr>)) = (r, st')"
      by (simp add: l)
    from Cons.IH [OF this] obtain evs n where pg: "page st' = (page st @ [St_write name w]) @ evs"
      and n: "n \<le> length ls"
      "http_gets st' = (http_gets st @ [request_of env l]) @ map (request_of env) (take n ls)"
      by (auto simp: l)
    have "http_gets st' = http_gets st @ map (request_of env) (take (Suc n) (l # ls))"
      using n(2) by simp
    with n(1) pg show ?thesis
      by (intro conjI exI [of _ "Suc n"] exI [of _ "St_write name w # evs"]) simp_all
  qed
qed

lemma fetch_districts_step:
  assumes "read_weather (weather_api env (length (http_gets st))) = Inr w"
  shows "fetch_districts env ((name, lat, lon) # ls) acc st =
     fetch_districts env ls (acc @ [((name, lat, lon), w)])
       (st\<lparr>http_gets := http_gets st @ [request_of env (name, lat, lon)]\<rparr>)"
  using assms by (simp add: get_weather_eq [where name = name])

lemma fetch_districts_stop:
  assumes "fetch_error env (length (http_gets st)) = Some e"
  shows "fetch_districts env ((name, lat, lon) # ls) acc st =
     (Inl e, st\<lparr>http_gets := http_gets st @ [request_of env (name, lat, lon)]\<rparr>)"
  using assms by (simp add: get_weather_eq [where name = name] fetch_error_Some)

lemma fetch_districts_ok:
  "\<forall>j<length ls. fetch_error env (length (http_gets st) + j) = None \<Longrightarrow>
   \<exists>rows st'. fetch_districts env ls acc st = (Inr rows, st') \<and> page st' = page st \<and>
         http_gets st' = http_gets st @ map (request_of env) ls"
proof (induction ls arbitrary: st acc)
  case Nil
  then show ?case by simp
next
  case (Cons l ls)
  obtain name lat lon where l: "l = (name, lat, lon)" by (cases l)
  from Cons.prems have "fetch_error env (length (http_gets st) + 0) = None" by fastforce
  then obtain w where w: "read_weather (weather_api env (length (http_gets st))) = Inr w"
    by (auto simp: fetch_error_None)
  let ?st = "st\<lparr>http_gets := http_gets st @ [request_of env l]\<rparr>"
  have step: "fetch_districts env (l # ls) acc st =
              fetch_districts env ls (acc @ [(l, w)]) ?st"
    unfolding l by (rule fetch_districts_step [OF w])
  have "\<forall>j<length ls. fetch_error env (length (http_gets ?st) + j) = None"
  proof (intro allI impI)
    fix j assume "j < length ls"
    then have "fetch_error env (length (http_gets st) + Suc j) = None"
      using Cons.prems by fastforce
    then show "fetch_error env (length (http_gets ?st) + j) = None" by simp
  qed
  from Cons.IH [OF this, of "acc @ [(l, w)]"] show ?case
    unfolding step by auto
qed

lemma fetch_districts_fails:
  "k < length ls \<Longrightarrow> \<forall>j<k. fetch_error env (length (http_gets st) + j) = None \<Longrightarrow>
   fetch_error env (length (http_gets st) + k) = Some e \<Longrightarrow>
   \<exists>st'. fetch_districts env ls acc st = (Inl e, st') \<and> page st' = page st \<and>
         http_gets st' = http_gets st @ map (request_of env) (take (Suc k) ls)"
proof (induction ls arbitrary: st k acc)
  case Nil
  then show ?case by simp
next
  case (Cons l ls)
  obtain name lat lon where l: "l = (name, lat, lon)" by (cases l)
  show ?case
  proof (cases k)
    case 0
    then have "fetch_error env (length (http_gets st)) = Some e"
      using Cons.prems(3) by simp
    from fetch_districts_stop [OF this, of name lat lon ls acc] show ?thesis
      using 0 by (simp add: l)
  next
    case (Suc k')
    from Cons.prems(2) Suc have "fetch_error env (length (http_gets st) + 0) = None"
      by fastforce
    then obtain w where w: "read_weather (weather_api env (length (http_gets st))) = Inr w"
      by (auto simp: fetch_error_None)
    let ?st = "st\<lparr>http_gets := http_gets st @ [request_of env l]\<rparr>"
    have step: "fetch_districts env (l # ls) acc st =
                fetch_districts env ls (acc @ [(l, w)]) ?st"
      unfolding l by (rule fetch_districts_step [OF w])
    have k': "k' < length ls" using Cons.prems(1) Suc by simp
    have ok: "\<forall>j<k'. fetch_error env (length (http_gets ?st) + j) = None"
    proof (intro allI impI)
      fix j assume "j < k'"
      then have "fetch_error env (length (http_gets st) + Suc j) = None"
        using Cons.prems(2) Suc by fastforce
      then show "fetch_error env (length (http_gets ?st) + j) = None" by simp
    qed
    have bad: "fetch_error env (length (http_gets ?st) + k') = Some e"
      using Cons.prems(3) Suc by simp
    from Cons.IH [OF k' ok bad, of "acc @ [(l, w)]"] show ?thesis
      unfolding step using Suc by auto
  qed
qed

lemma fetch_districts_grows:
  "fetch_districts env ls acc st = (r, st') \<Longrightarrow>
   page st' = page st \<and>
   (\<exists>n. n \<le> length ls \<and> (ls \<noteq> [] \<longrightarrow> 0 < n) \<and>
       http_gets st' = http_gets st @ map (request_of env) (take n ls))"
proof (induction ls arbitrary: st acc)
  case Nil
  then show ?case by simp
next
  case (Cons l ls)
  obtain name lat lon where l: "l = (name, lat, lon)" by (cases l)
  show ?case
  proof (cases "fetch_error env (length (http_gets st))")
    case (Some e)
    from fetch_districts_stop [OF this, of name lat lon ls acc] Cons.prems
    have st': "st' = st\<lparr>http_gets := http_gets st @ [request_of env l]\<rparr>"
      by (auto simp: l)
    then have "http_gets st' = http_gets st @ map (request_of env) (take 1 (l # ls))"
      and "page st' = page st"
      by simp_all
    then show ?thesis by (intro conjI exI [of _ 1]) simp_all
  next
    case None
    then obtain w where w: "read_weather (weather_api env (length (http_gets st))) = Inr w"
      by (auto simp: fetch_error_None)
    from fetch_districts_step [OF w, of name lat lon ls acc] Cons.prems
    have "fetch_districts env ls (acc @ [((name, lat, lon), w)])
          (st\<lparr>http_gets := http_gets st @ [request_of env (name, lat, lon)]\<rparr>) = (r, st')"
      by (simp add: l)
    from Cons.IH [OF this] obtain n where pg: "page st' = page st"
      and n: "n \<le> length ls"
      "http_gets st' = (http_gets st @ [request_of env l]) @ map (request_of env) (take n ls)"
      by (auto simp: l)
    have "http_gets st' = http_gets st @ map (request_of env) (take (Suc n) (l # ls))"
      using n(2) by simp
    with n(1) pg show ?thesis
      by (intro conjI exI [of _ "Suc n"]) simp_all
  qed
qed

text \<open>The rows the fetch loop collects: one per location, with the weather as read.\<close>

lemma fetch_districts_rows:
  "fetch_districts env ls acc st = (Inr rows, st') \<Longrightarrow>
   \<exists>ws. length ws = length ls \<and> rows = acc @ zip ls ws \<and>
        (\<forall>i<length ls.
           read_weather (weather_api env (length (http_gets st) + i)) = Inr (ws ! i))"
proof (induction ls arbitrary: acc st)
  case Nil
  then show ?case by simp
next
  case (Cons l ls)
  obtain name lat lon where l: "l = (name, lat, lon)" by (cases l)
  show ?case
  proof (cases "fetch_error env (length (http_gets st))")
    case (Some e)
    from fetch_districts_stop [OF this, of name lat lon ls acc] Cons.prems
    show ?thesis by (simp add: l)
  next
    case None
    then obtain w where w: "read_weather (weather_api env (length (http_gets st))) = Inr w"
      by (auto simp: fetch_error_None)
    let ?st = "st\<lparr>http_gets := http_gets st @ [request_of env l]\<rparr>"
    from fetch_districts_step [OF w, of name lat lon ls acc] Cons.prems
    have "fetch_districts env ls (acc @ [(l, w)]) ?st = (Inr rows, st')"
      by (simp add: l)
    from Cons.IH [OF this] obtain ws where ws: "length ws = length ls"
      "rows = (acc @ [(l, w)]) @ zip ls ws"
      "\<forall>i<length ls. read_weather (weather_api env (length (http_gets ?st) + i)) = Inr (ws ! i)"
      by blast
    have "\<forall>i<length (l # ls).
        read_weather (weather_api env (length (http_gets st) + i)) = Inr ((w # ws) ! i)"
    proof (intro allI impI)
      fix i assume i: "i < length (l # ls)"
      show "read_weather (weather_api env (length (http_gets st) + i)) = Inr ((w # ws) ! i)"
      proof (cases i)
        case 0
        then show ?thesis using w by simp
      next
        case (Suc i')
        then have "i' < length ls" using i by simp
        with ws(3) have "read_weather (weather_api env (length (http_gets ?st) + i')) =
            Inr (ws ! i')" by blast
        then show ?thesis using Suc by simp
      qed
    qed
    moreover have "length (w # ws) = length (l # ls)" using ws(1) by simp
    moreover have "rows = acc @ zip (l # ls) (w # ws)" using ws(2) by simp
    ultimately show ?thesis by blast
  qed
qed

subsection \<open>The sections\<close>

lemma lst_map_section_gets:
  "lst_map_section env st = (r, st') \<Longrightarrow> http_gets st' = http_gets st"
  by (auto simp: lst_map_section_def split: sum.splits if_splits)

lemma lst_map_section_ok:
  assumes "fst (lst_map_section env init_state) = Inr ()"
  shows "\<exists>st1. lst_map_section env init_state = (Inr (), st1) \<and> http_gets st1 = []"
proof -
  obtain r st1 where eq: "lst_map_section env init_state = (r, st1)"
    by (cases "lst_map_section env init_state")
  from lst_map_section_gets [OF eq] have "http_gets st1 = []"
    by (simp add: init_state_def)
  with eq assms show ?thesis by simp
qed

lemma time_series_section_gets [simp]:
  "http_gets (time_series_section env st) = http_gets st"
  by (simp add: time_series_section_def split: sum.splits)

lemma time_series_section_page:
  "\<exists>evs. page (time_series_section env st) = page st @ evs"
  by (simp add: time_series_section_def split: sum.splits)

lemma time_series_section_error:
  "time_series_body env = Inl e \<Longrightarrow>
   page (time_series_section env st) =
     page st @ [St_exception ''Error fetching time series data: '' e]"
  by (simp add: time_series_section_def)

lemma spatial_section_grows:
  "(\<exists>evs. page (spatial_section env st) = page st @ evs) \<and>
   http_gets (spatial_section env st) = http_gets (snd (fetch_districts env locations [] st))"
proof -
  obtain r st1 where f: "fetch_districts env locations [] st = (r, st1)"
    by (cases "fetch_districts env locations [] st")
  from fetch_districts_grows [OF f] have pg: "page st1 = page st" by simp
  show ?thesis
    using pg by (auto simp: spatial_section_def spatial_body_def f Let_def
        split: sum.splits option.splits prod.splits)
qed

lemma spatial_section_sends:
  "\<exists>n. 0 < n \<and> n \<le> 5 \<and>
       http_gets (spatial_section env st) =
         http_gets st @ map (request_of env) (take n locations)"
proof -
  obtain r st1 where f: "fetch_districts env locations [] st = (r, st1)"
    by (cases "fetch_districts env locations [] st")
  have ne: "locations \<noteq> []" by (simp add: locations_def)
  from fetch_districts_grows [OF f] ne obtain n where "n \<le> length locations" "0 < n"
    "http_gets st1 = http_gets st @ map (request_of env) (take n locations)"
    by auto
  moreover have "http_gets (spatial_section env st) = http_gets st1"
    using spatial_section_grows [of env st] by (simp add: f)
  ultimately show ?thesis by (auto simp: length_locations)
qed

lemma spatial_section_fails:
  assumes "k < length locations"
    and "\<forall>j<k. fetch_error env (length (http_gets st) + j) = None"
    and "fetch_error env (length (http_gets st) + k) = Some e"
  shows "http_gets (spatial_section env st) =
           http_gets st @ map (request_of env) (take (Suc k) locations) \<and>
         page (spatial_section env st) =
           page st @ [St_exception ''Error in spatial distribution analysis: '' e]"
proof -
  obtain st' where f: "fetch_districts env locations [] st = (Inl e, st')"
    "page st' = page st"
    "http_gets st' = http_gets st @ map (request_of env) (take (Suc k) locations)"
    using fetch_districts_fails [OF assms, of "[]"] by auto
  show ?thesis
    using f by (simp add: spatial_section_def spatial_body_def)
qed

lemma spatial_section_no_raise:
  assumes "\<forall>j<length locations. fetch_error env (length (http_gets st) + j) = None"
  shows "http_gets (spatial_section env st) = http_gets st @ map (request_of env) locations"
proof -
  obtain rows st' where f: "fetch_districts env locations [] st = (Inr rows, st')"
    "http_gets st' = http_gets st @ map (request_of env) locations"
    using fetch_districts_ok [OF assms, of "[]"] by auto
  then show ?thesis
    using spatial_section_grows [of env st] by simp
qed

text \<open>A table of numbers is the table of five weather samples.\<close>

lemma data_frame_zip:
  "length ws = length ls \<Longrightarrow> \<forall>i<length ls. \<exists>v. numeric_weather (ws ! i) = Some v \<Longrightarrow>
   \<exists>vs. length vs = length ls \<and> data_frame (zip ls ws) = Some (map2 make_row ls vs)"
proof (induction ws ls rule: list_induct2)
  case Nil
  then show ?case by (simp add: data_frame_def)
next
  case (Cons w ws l ls)
  from Cons.prems have "\<exists>v. numeric_weather ((w # ws) ! 0) = Some v" by blast
  then obtain v where v: "numeric_weather w = Some v" by auto
  have "\<forall>i<length ls. \<exists>v. numeric_weather (ws ! i) = Some v"
  proof (intro allI impI)
    fix i assume "i < length ls"
    then have "\<exists>v. numeric_weather ((w # ws) ! Suc i) = Some v"
      using Cons.prems by (metis Suc_less_eq length_Cons)
    then show "\<exists>v. numeric_weather (ws ! i) = Some v" by simp
  qed
  from Cons.IH [OF this] obtain vs where vs: "length vs = length ls"
    "data_frame (zip ls ws) = Some (map2 make_row ls vs)"
    by blast
  have "data_frame (zip (l # ls) (w # ws)) = Some (map2 make_row (l # ls) (v # vs))"
    using vs(2) v by (simp add: data_frame_def)
  moreover have "length (v # vs) = length (l # ls)" using vs(1) by simp
  ultimately show ?case by blast
qed

lemma fetch_locations_table:
  assumes "fetch_districts env locations [] st = (Inr rows, st')"
    and "\<forall>j<5. weather_ok env (length (http_gets st) + j)"
  shows "\<exists>vs. length vs = 5 \<and> data_frame rows = Some (district_table vs)"
proof -
  from fetch_districts_rows [OF assms(1)] obtain ws where ws: "length ws = length locations"
    "rows = zip locations ws"
    "\<forall>i<length locations.
       read_weather (weather_api env (length (http_gets st) + i)) = Inr (ws ! i)"
    by auto
  have "\<forall>i<length locations. \<exists>v. numeric_weather (ws ! i) = Some v"
  proof (intro allI impI)
    fix i assume i: "i < length locations"
    then have "weather_ok env (length (http_gets st) + i)"
      using assms(2) by (simp add: length_locations)
    from weather_ok_numeric [OF this] ws(3) i show "\<exists>v. numeric_weather (ws ! i) = Some v"
      by auto
  qed
  from data_frame_zip [OF ws(1) this] show ?thesis
    by (auto simp: ws(2) district_table_def length_locations)
qed

lemma spatial_section_ok:
  assumes "\<forall>j<5. weather_ok env (length (http_gets st) + j)"
  shows "http_gets (spatial_section env st) =
           http_gets st @ map (request_of env) locations \<and>
         (\<exists>vs s evs. length vs = 5 \<and> uhi_analysis (district_table vs) = Inr s \<and>
            page (spatial_section env st) =
              page st @ evs @
                [St_info (District (fst (hottest_district s))) (snd (hottest_district s))
                   (Temperature (fst (hottest_district s))),
                 St_info (District (fst (coolest_district s))) (snd (coolest_district s))
                   (Temperature (fst (coolest_district s)))])"
proof -
  have noraise: "\<forall>j<length locations. fetch_error env (length (http_gets st) + j) = None"
    using assms by (simp add: length_locations weather_ok_fetch)
  obtain rows st' where f: "fetch_districts env locations [] st = (Inr rows, st')"
    "page st' = page st"
    "http_gets st' = http_gets st @ map (request_of env) locations"
    using fetch_districts_ok [OF noraise, of "[]"] by auto
  obtain vs where vs: "length vs = 5" "data_frame rows = Some (district_table vs)"
    using fetch_locations_table [OF f(1) assms] by blast
  have ne: "district_table vs \<noteq> []"
    using vs(1) by (cases vs) (simp_all add: district_table_def locations_def)
  obtain s where s: "uhi_analysis (district_table vs) = Inr s"
    "temp_anomaly (district_table vs) =
       Inr (map (\<lambda>r. Finite (Temperature r - mean_temp s)) (district_table vs))"
    using uhi_analysis_total [OF ne] by blast
  have pg: "page (spatial_section env st) =
      page st @ (St_dataframe (map (\<lambda>r. Finite (Temperature r - mean_temp s))
                    (district_table vs)) #
                 map (\<lambda>(d, c). Circle_marker d c) (heat_map_markers (district_table vs))) @
        [St_info (District (fst (hottest_district s))) (snd (hottest_district s))
           (Temperature (fst (hottest_district s))),
         St_info (District (fst (coolest_district s))) (snd (coolest_district s))
           (Temperature (fst (coolest_district s)))]"
    using f vs s by (simp add: spatial_section_def spatial_body_def Let_def)
  have gets: "http_gets (spatial_section env st) =
      http_gets st @ map (request_of env) locations"
    by (rule spatial_section_no_raise [OF noraise])
  from gets pg vs(1) s(1) show ?thesis by blast
qed

lemma run_cycle_markers_ok:
  assumes lst: "fst (lst_map_section env init_state) = Inr ()"
    and ok: "\<forall>j<5. marker_error env j = None"
  shows "\<exists>st1 st2. lst_map_section env init_state = (Inr (), st1) \<and>
     marker_loop env locations st1 = (Inr (), st2) \<and>
     http_gets st2 = map (request_of env) locations \<and>
     (\<exists>evs. page st2 = page st1 @ evs) \<and>
     run_cycle env =
       (case alerts_loop env locations
               (spatial_section env (time_series_section env st2)) of
          (Inl e, st5) \<Rightarrow> (Crashed e, st5)
        | (Inr u, st5) \<Rightarrow> (Completed, st5))"
proof -
  obtain st1 where st1: "lst_map_section env init_state = (Inr (), st1)" "http_gets st1 = []"
    using lst_map_section_ok [OF lst] by blast
  have "\<forall>j<length locations. marker_error env (length (http_gets st1) + j) = None"
    using ok by (simp add: st1(2) length_locations)
  from marker_loop_ok [OF this]
  obtain st2 where st2: "marker_loop env locations st1 = (Inr (), st2)"
    "http_gets st2 = map (request_of env) locations"
    by (auto simp: st1(2))
  have "\<exists>evs. page st2 = page st1 @ evs"
    by (rule marker_loop_page [OF st2(1)])
  then show ?thesis
    using st1 st2 by (simp add: run_cycle_def)
qed

lemma take_hd_tl: "xs \<noteq> [] \<Longrightarrow> 0 < k \<Longrightarrow> take k xs = hd xs # take (k - 1) (tl xs)"
  by (cases xs; cases k) simp_all

text \<open>The live alerts, which end the run, started after n GETs.\<close>

lemma alerts_phase:
  assumes run: "run_cycle env =
       (case alerts_loop env locations st4 of
          (Inl e, st5) \<Rightarrow> (Crashed e, st5)
        | (Inr u, st5) \<Rightarrow> (Completed, st5))"
    and n: "length (http_gets st4) = n"
  shows "\<exists>evs. page (snd (run_cycle env)) = page st4 @ evs"
    and "n < length (http_gets (snd (run_cycle env)))"
    and "http_gets (snd (run_cycle env)) ! n = request_of env (hd locations)"
    and "take n (http_gets (snd (run_cycle env))) = http_gets st4"
    and "m < 5 \<Longrightarrow> \<forall>i<m. fetch_error env (n + i) = None \<Longrightarrow>
         fetch_error env (n + m) = Some e' \<Longrightarrow>
         fst (run_cycle env) = Crashed e' \<and>
         length (http_gets (snd (run_cycle env))) = n + Suc m"
    and "\<forall>i<5. fetch_error env (n + i) = None \<Longrightarrow>
         fst (run_cycle env) = Completed \<and>
         http_gets (snd (run_cycle env)) = http_gets st4 @ map (request_of env) locations"
proof -
  obtain r st5 where al: "alerts_loop env locations st4 = (r, st5)"
    by (cases "alerts_loop env locations st4")
  have snd_run: "snd (run_cycle env) = st5"
    by (simp add: run al split: sum.splits)
  have ne: "locations \<noteq> []" by (simp add: locations_def)
  from alerts_loop_grows [OF al] ne obtain evs k where
    pg: "page st5 = page st4 @ evs" and k: "0 < k" "k \<le> length locations"
    and gets: "http_gets st5 = http_gets st4 @ map (request_of env) (take k locations)"
    by auto
  show "\<exists>evs. page (snd (run_cycle env)) = page st4 @ evs"
    using pg by (simp add: snd_run)
  show "n < length (http_gets (snd (run_cycle env)))"
    using k n by (simp add: snd_run gets)
  have "take k locations = hd locations # take (k - 1) (tl locations)"
    using k ne by (simp add: take_hd_tl)
  then show "http_gets (snd (run_cycle env)) ! n = request_of env (hd locations)"
    using n by (simp add: snd_run gets nth_append)
  show "take n (http_gets (snd (run_cycle env))) = http_gets st4"
    using n by (simp add: snd_run gets)
  show "fst (run_cycle env) = Crashed e' \<and>
        length (http_gets (snd (run_cycle env))) = n + Suc m"
    if m: "m < 5" and before: "\<forall>i<m. fetch_error env (n + i) = None"
      and bad: "fetch_error env (n + m) = Some e'"
  proof -
    have "\<exists>st'. alerts_loop env locations st4 = (Inl e', st') \<and>
         http_gets st' = http_gets st4 @ map (request_of env) (take (Suc m) locations)"
    proof (rule alerts_loop_fails)
      show "m < length locations" using m by (simp add: length_locations)
      show "\<forall>i<m. fetch_error env (length (http_gets st4) + i) = None"
        using before by (simp add: n)
      show "fetch_error env (length (http_gets st4) + m) = Some e'"
        using bad by (simp add: n)
    qed
    then show ?thesis
      using m n by (auto simp: run length_locations)
  qed
  show "fst (run_cycle env) = Completed \<and>
        http_gets (snd (run_cycle env)) = http_gets st4 @ map (request_of env) locations"
    if ok: "\<forall>i<5. fetch_error env (n + i) = None"
  proof -
    have "\<forall>i<length locations. fetch_error env (length (http_gets st4) + i) = None"
      using ok by (simp add: n length_locations)
    from alerts_loop_ok [OF this] show ?thesis
      by (auto simp: run)
  qed
qed

lemma read_weather_body:
  "read_weather (weather_body a b c) = Inr \<lparr>temperature = a, humidity = c, feels_like = b\<rparr>"
  by (simp add: read_weather_def weather_body_def member_of_def)

subsection \<open>The sample runs\<close>

lemmas run_defs = run_cycle_def lst_map_section_def init_state_def locations_def
  get_weather_def read_weather_def member_of_def emit_def time_series_section_def
  time_series_body_def spatial_section_def spatial_body_def data_frame_def numeric_weather_def
  py_heat_alert_def temp_anomaly_def column_def
  series_mean_def heat_map_markers_def temp_normalized_def marker_color_def uhi_analysis_def
  idxmax_def idxmin_def loc_def make_row_def heat_alert_def
  calm_env_def get_fails_env_def gets_fail_env_def ok_response_def weather_body_def

lemma ok_response_ok: "weather_ok env k" if "weather_api env k = ok_response t"
  using that by (simp add: weather_ok_def read_weather_def ok_response_def weather_body_def
      member_of_def numeric_weather_def)

lemma gets_fail_env_ok: "j \<notin> set ks \<Longrightarrow> weather_ok (gets_fail_env ks e) j"
  by (rule ok_response_ok [of _ _ 30]) (simp add: gets_fail_env_def)

lemma gets_fail_env_bad: "j \<in> set ks \<Longrightarrow> fetch_error (gets_fail_env ks e) j = Some e"
  by (simp add: gets_fail_env_def fetch_error_def read_weather_def)

lemma gets_fail_env_layer: "fst (lst_map_section (gets_fail_env ks e) init_state) = Inr ()"
  by (simp add: gets_fail_env_def lst_map_section_def calm_env_def)

lemma calm_markers:
  "weather_api env = weather_api calm_env \<Longrightarrow> \<forall>j<5. marker_error env j = None"
  by (auto intro!: weather_ok_marker ok_response_ok [of _ _ 30] simp: calm_env_def)

subsection \<open>Failures of the weather API\<close>

text \<open>
  C7, as the code has it, for a run that draws the satellite layer. A fetch raises
  when the request fails, when the body is not JSON, or when the body lacks the
  \<open>main\<close> dictionary or one of its three fields; a body that has the three fields
  never makes the fetch raise, whatever their values. In the marker loop the
  exception of a pass, that of the fetch included, ends the run at that GET. In the
  spatial section the first fetch that raises is caught: the page shows the error of
  the section and the live alerts are run, which send the next GET. In the live
  alerts the first fetch that raises ends the run at that GET, whether or not the
  spatial section has caught one before; when none raises the run completes.
\<close>

theorem weather_failure_propagation:
  assumes lst: "fst (lst_map_section env init_state) = Inr ()"
  shows "(fetch_error env k = Some e \<longrightarrow> marker_error env k = Some e) \<and>
         (k < 5 \<and> (\<forall>j<k. marker_error env j = None) \<and> marker_error env k = Some e \<longrightarrow>
            fst (run_cycle env) = Crashed e \<and>
            http_gets (snd (run_cycle env)) = map (request_of env) (take (Suc k) locations)) \<and>
         ((\<forall>j<5. marker_error env j = None) \<and> 5 \<le> k \<and> k < 10 \<and>
          (\<forall>j. 5 \<le> j \<and> j < k \<longrightarrow> fetch_error env j = None) \<and>
          fetch_error env k = Some e \<longrightarrow>
            St_exception ''Error in spatial distribution analysis: '' e
              \<in> set (page (snd (run_cycle env))) \<and>
            Suc k < length (http_gets (snd (run_cycle env))) \<and>
            http_gets (snd (run_cycle env)) ! Suc k = request_of env (hd locations) \<and>
            (m < 5 \<and> (\<forall>i<m. fetch_error env (Suc k + i) = None) \<and>
             fetch_error env (Suc k + m) = Some e' \<longrightarrow>
               fst (run_cycle env) = Crashed e' \<and>
               length (http_gets (snd (run_cycle env))) = Suc k + Suc m) \<and>
            ((\<forall>i<5. fetch_error env (Suc k + i) = None) \<longrightarrow>
               fst (run_cycle env) = Completed \<and>
               length (http_gets (snd (run_cycle env))) = Suc k + 5)) \<and>
         ((\<forall>j<5. marker_error env j = None) \<and>
          (\<forall>j. 5 \<le> j \<and> j < 10 \<longrightarrow> fetch_error env j = None) \<longrightarrow>
            (m < 5 \<and> (\<forall>i<m. fetch_error env (10 + i) = None) \<and>
             fetch_error env (10 + m) = Some e' \<longrightarrow>
               fst (run_cycle env) = Crashed e' \<and>
               length (http_gets (snd (run_cycle env))) = 10 + Suc m) \<and>
            ((\<forall>i<5. fetch_error env (10 + i) = None) \<longrightarrow>
               fst (run_cycle env) = Completed \<and>
               length (http_gets (snd (run_cycle env))) = 15)) \<and>
         read_weather (weather_body a b c) =
           Inr \<lparr>temperature = a, humidity = c, feels_like = b\<rparr>"
proof (intro conjI)
  show "fetch_error env k = Some e \<longrightarrow> marker_error env k = Some e"
    by (simp add: marker_error_fetch)
next
  show "k < 5 \<and> (\<forall>j<k. marker_error env j = None) \<and> marker_error env k = Some e \<longrightarrow>
            fst (run_cycle env) = Crashed e \<and>
            http_gets (snd (run_cycle env)) = map (request_of env) (take (Suc k) locations)"
  proof
    assume a: "k < 5 \<and> (\<forall>j<k. marker_error env j = None) \<and> marker_error env k = Some e"
    then have k: "k < 5" and before: "\<forall>j<k. marker_error env j = None"
      and bad: "marker_error env k = Some e"
      by simp_all
    obtain st1 where st1: "lst_map_section env init_state = (Inr (), st1)" "http_gets st1 = []"
      using lst_map_section_ok [OF lst] by blast
    have "\<exists>st'. marker_loop env locations st1 = (Inl e, st') \<and>
         http_gets st' = http_gets st1 @ map (request_of env) (take (Suc k) locations)"
    proof (rule marker_loop_fails)
      show "k < length locations" using k by (simp add: length_locations)
      show "\<forall>j<k. marker_error env (length (http_gets st1) + j) = None"
        using before by (simp add: st1(2))
      show "marker_error env (length (http_gets st1) + k) = Some e"
        using bad by (simp add: st1(2))
    qed
    then obtain st' where st': "marker_loop env locations st1 = (Inl e, st')"
      "http_gets st' = map (request_of env) (take (Suc k) locations)"
      by (auto simp: st1(2))
    have run: "run_cycle env = (Crashed e, st')"
      by (simp add: run_cycle_def st1(1) st')
    show "fst (run_cycle env) = Crashed e \<and>
          http_gets (snd (run_cycle env)) = map (request_of env) (take (Suc k) locations)"
      by (simp add: run st'(2))
  qed
next
  show "(\<forall>j<5. marker_error env j = None) \<and> 5 \<le> k \<and> k < 10 \<and>
          (\<forall>j. 5 \<le> j \<and> j < k \<longrightarrow> fetch_error env j = None) \<and>
          fetch_error env k = Some e \<longrightarrow>
            St_exception ''Error in spatial distribution analysis: '' e
              \<in> set (page (snd (run_cycle env))) \<and>
            Suc k < length (http_gets (snd (run_cycle env))) \<and>
            http_gets (snd (run_cycle env)) ! Suc k = request_of env (hd locations) \<and>
            (m < 5 \<and> (\<forall>i<m. fetch_error env (Suc k + i) = None) \<and>
             fetch_error env (Suc k + m) = Some e' \<longrightarrow>
               fst (run_cycle env) = Crashed e' \<and>
               length (http_gets (snd (run_cycle env))) = Suc k + Suc m) \<and>
            ((\<forall>i<5. fetch_error env (Suc k + i) = None) \<longrightarrow>
               fst (run_cycle env) = Completed \<and>
               length (http_gets (snd (run_cycle env))) = Suc k + 5)"
  proof
    assume a: "(\<forall>j<5. marker_error env j = None) \<and> 5 \<le> k \<and> k < 10 \<and>
          (\<forall>j. 5 \<le> j \<and> j < k \<longrightarrow> fetch_error env j = None) \<and>
          fetch_error env k = Some e"
    then have ok5: "\<forall>j<5. marker_error env j = None" and k: "5 \<le> k" "k < 10"
      and before: "\<forall>j. 5 \<le> j \<and> j < k \<longrightarrow> fetch_error env j = None"
      and bad: "fetch_error env k = Some e"
      by simp_all
    obtain st2 where st2: "http_gets st2 = map (request_of env) locations"
      and run: "run_cycle env =
         (case alerts_loop env locations
                 (spatial_section env (time_series_section env st2)) of
            (Inl e, st5) \<Rightarrow> (Crashed e, st5)
          | (Inr u, st5) \<Rightarrow> (Completed, st5))"
      using run_cycle_markers_ok [OF lst ok5] by blast
    let ?st3 = "time_series_section env st2"
    let ?st4 = "spatial_section env ?st3"
    have sp: "http_gets ?st4 =
             http_gets ?st3 @ map (request_of env) (take (Suc (k - 5)) locations) \<and>
           page ?st4 =
             page ?st3 @ [St_exception ''Error in spatial distribution analysis: '' e]"
    proof (rule spatial_section_fails)
      show "k - 5 < length locations" using k by (simp add: length_locations)
      show "\<forall>j<k - 5. fetch_error env (length (http_gets ?st3) + j) = None"
        using before k by (simp add: st2 length_locations)
      show "fetch_error env (length (http_gets ?st3) + (k - 5)) = Some e"
        using bad k by (simp add: st2 length_locations)
    qed
    have len4: "length (http_gets ?st4) = Suc k"
      using sp k by (simp add: st2 length_locations)
    note ph = alerts_phase [OF run len4]
    from ph(1) sp have mem: "St_exception ''Error in spatial distribution analysis: '' e
        \<in> set (page (snd (run_cycle env)))"
      by auto
    have c: "m < 5 \<and> (\<forall>i<m. fetch_error env (Suc k + i) = None) \<and>
             fetch_error env (Suc k + m) = Some e' \<longrightarrow>
               fst (run_cycle env) = Crashed e' \<and>
               length (http_gets (snd (run_cycle env))) = Suc k + Suc m"
      using ph(5) [of m e'] by blast
    have d: "(\<forall>i<5. fetch_error env (Suc k + i) = None) \<longrightarrow>
               fst (run_cycle env) = Completed \<and>
               length (http_gets (snd (run_cycle env))) = Suc k + 5"
      using ph(6) len4 by (auto simp: length_locations)
    from mem ph(2) ph(3) c d
    show "St_exception ''Error in spatial distribution analysis: '' e
              \<in> set (page (snd (run_cycle env))) \<and>
            Suc k < length (http_gets (snd (run_cycle env))) \<and>
            http_gets (snd (run_cycle env)) ! Suc k = request_of env (hd locations) \<and>
            (m < 5 \<and> (\<forall>i<m. fetch_error env (Suc k + i) = None) \<and>
             fetch_error env (Suc k + m) = Some e' \<longrightarrow>
               fst (run_cycle env) = Crashed e' \<and>
               length (http_gets (snd (run_cycle env))) = Suc k + Suc m) \<and>
            ((\<forall>i<5. fetch_error env (Suc k + i) = None) \<longrightarrow>
               fst (run_cycle env) = Completed \<and>
               length (http_gets (snd (run_cycle env))) = Suc k + 5)"
      by blast
  qed
next
  show "(\<forall>j<5. marker_error env j = None) \<and>
          (\<forall>j. 5 \<le> j \<and> j < 10 \<longrightarrow> fetch_error env j = None) \<longrightarrow>
            (m < 5 \<and> (\<forall>i<m. fetch_error env (10 + i) = None) \<and>
             fetch_error env (10 + m) = Some e' \<longrightarrow>
               fst (run_cycle env) = Crashed e' \<and>
               length (http_gets (snd (run_cycle env))) = 10 + Suc m) \<and>
            ((\<forall>i<5. fetch_error env (10 + i) = None) \<longrightarrow>
               fst (run_cycle env) = Completed \<and>
               length (http_gets (snd (run_cycle env))) = 15)"
  proof
    assume a: "(\<forall>j<5. marker_error env j = None) \<and>
          (\<forall>j. 5 \<le> j \<and> j < 10 \<longrightarrow> fetch_error env j = None)"
    then have ok5: "\<forall>j<5. marker_error env j = None"
      and noraise: "\<forall>j. 5 \<le> j \<and> j < 10 \<longrightarrow> fetch_error env j = None"
      by simp_all
    obtain st2 where st2: "http_gets st2 = map (request_of env) locations"
      and run: "run_cycle env =
         (case alerts_loop env locations
                 (spatial_section env (time_series_section env st2)) of
            (Inl e, st5) \<Rightarrow> (Crashed e, st5)
          | (Inr u, st5) \<Rightarrow> (Completed, st5))"
      using run_cycle_markers_ok [OF lst ok5] by blast
    let ?st3 = "time_series_section env st2"
    let ?st4 = "spatial_section env ?st3"
    have "\<forall>j<length locations. fetch_error env (length (http_gets ?st3) + j) = None"
      using noraise by (simp add: st2 length_locations)
    from spatial_section_no_raise [OF this]
    have len4: "length (http_gets ?st4) = 10"
      by (simp add: st2 length_locations)
    note ph = alerts_phase [OF run len4]
    have c: "m < 5 \<and> (\<forall>i<m. fetch_error env (10 + i) = None) \<and>
             fetch_error env (10 + m) = Some e' \<longrightarrow>
               fst (run_cycle env) = Crashed e' \<and>
               length (http_gets (snd (run_cycle env))) = 10 + Suc m"
      using ph(5) [of m e'] by blast
    have d: "(\<forall>i<5. fetch_error env (10 + i) = None) \<longrightarrow>
               fst (run_cycle env) = Completed \<and>
               length (http_gets (snd (run_cycle env))) = 15"
      using ph(6) len4 by (auto simp: length_locations)
    from c d show "(m < 5 \<and> (\<forall>i<m. fetch_error env (10 + i) = None) \<and>
             fetch_error env (10 + m) = Some e' \<longrightarrow>
               fst (run_cycle env) = Crashed e' \<and>
               length (http_gets (snd (run_cycle env))) = 10 + Suc m) \<and>
            ((\<forall>i<5. fetch_error env (10 + i) = None) \<longrightarrow>
               fst (run_cycle env) = Completed \<and>
               length (http_gets (snd (run_cycle env))) = 15)"
      by blast
  qed
next
  show "read_weather (weather_body a b c) =
           Inr \<lparr>temperature = a, humidity = c, feels_like = b\<rparr>"
    by (rule read_weather_body)
qed

theorem weather_failure_propagation_witness:
  "fst (run_cycle (gets_fail_env [2] (Raised ''ConnectionError'' ''unreachable''))) =
     Crashed (Raised ''ConnectionError'' ''unreachable'') \<and>
   length (http_gets (snd (run_cycle
     (gets_fail_env [2] (Raised ''ConnectionError'' ''unreachable''))))) = 3 \<and>
   St_exception ''Error in spatial distribution analysis: ''
       (Raised ''ConnectionError'' ''unreachable'')
     \<in> set (page (snd (run_cycle
          (gets_fail_env [7, 8] (Raised ''ConnectionError'' ''unreachable''))))) \<and>
   fst (run_cycle (gets_fail_env [7, 8] (Raised ''ConnectionError'' ''unreachable''))) =
     Crashed (Raised ''ConnectionError'' ''unreachable'') \<and>
   length (http_gets (snd (run_cycle
     (gets_fail_env [7, 8] (Raised ''ConnectionError'' ''unreachable''))))) = 9 \<and>
   fst (run_cycle (gets_fail_env [7] (Raised ''ConnectionError'' ''unreachable''))) =
     Completed \<and>
   length (http_gets (snd (run_cycle
     (gets_fail_env [7] (Raised ''ConnectionError'' ''unreachable''))))) = 13 \<and>
   fst (run_cycle (gets_fail_env [12] (Raised ''ConnectionError'' ''unreachable''))) =
     Crashed (Raised ''ConnectionError'' ''unreachable'') \<and>
   length (http_gets (snd (run_cycle
     (gets_fail_env [12] (Raised ''ConnectionError'' ''unreachable''))))) = 13"
proof -
  let ?e = "Raised ''ConnectionError'' ''unreachable''"
  have ok: "j \<notin> set ks \<Longrightarrow> marker_error (gets_fail_env ks ?e) j = None \<and>
      fetch_error (gets_fail_env ks ?e) j = None" for j ks
    using gets_fail_env_ok [of j ks ?e] by (simp add: weather_ok_marker weather_ok_fetch)
  have a: "fst (run_cycle (gets_fail_env [2] ?e)) = Crashed ?e \<and>
        length (http_gets (snd (run_cycle (gets_fail_env [2] ?e)))) = 3"
    using weather_failure_propagation
      [of "gets_fail_env [2] ?e" 2 ?e 0 ?e JNull JNull JNull, OF gets_fail_env_layer]
    by (simp add: ok gets_fail_env_bad marker_error_fetch length_locations)
  have b: "St_exception ''Error in spatial distribution analysis: '' ?e
        \<in> set (page (snd (run_cycle (gets_fail_env [7, 8] ?e)))) \<and>
      fst (run_cycle (gets_fail_env [7, 8] ?e)) = Crashed ?e \<and>
      length (http_gets (snd (run_cycle (gets_fail_env [7, 8] ?e)))) = 9"
    using weather_failure_propagation
      [of "gets_fail_env [7, 8] ?e" 7 ?e 0 ?e JNull JNull JNull, OF gets_fail_env_layer]
    by (simp add: ok gets_fail_env_bad)
  have c: "fst (run_cycle (gets_fail_env [7] ?e)) = Completed \<and>
      length (http_gets (snd (run_cycle (gets_fail_env [7] ?e)))) = 13"
    using weather_failure_propagation
      [of "gets_fail_env [7] ?e" 7 ?e 0 ?e JNull JNull JNull, OF gets_fail_env_layer]
    by (simp add: ok gets_fail_env_bad)
  have d: "fst (run_cycle (gets_fail_env [12] ?e)) = Crashed ?e \<and>
      length (http_gets (snd (run_cycle (gets_fail_env [12] ?e)))) = 13"
    using weather_failure_propagation
      [of "gets_fail_env [12] ?e" 0 ?e 2 ?e JNull JNull JNull, OF gets_fail_env_layer]
    by (simp add: ok gets_fail_env_bad)
  from a b c d show ?thesis by simp
qed

text \<open>
  C7 as stated fails: in this run the sixth GET, the first of the spatial section,
  fails, and the run completes, with the five GETs of the live alerts sent after it.
\<close>

theorem spatial_fetch_failure_is_caught:
  "fst (run_cycle (get_fails_env 5 (Raised ''ConnectionError'' ''unreachable''))) = Completed \<and>
   length (http_gets (snd (run_cycle
     (get_fails_env 5 (Raised ''ConnectionError'' ''unreachable''))))) = 11 \<and>
   read_weather (weather_api (get_fails_env 5 (Raised ''ConnectionError'' ''unreachable'')) 5) =
     Inl (Raised ''ConnectionError'' ''unreachable'')"
  by (simp add: run_defs)

subsection \<open>The number of requests\<close>

lemma run_cycle_all_ok:
  assumes lst: "fst (lst_map_section env init_state) = Inr ()"
    and ok: "\<forall>k<15. weather_ok env k"
  shows "\<exists>st1 st2 st5. lst_map_section env init_state = (Inr (), st1) \<and>
     (\<exists>evs. page st2 = page st1 @ evs) \<and>
     (\<exists>evs. page st5 = page (time_series_section env st2) @ evs) \<and>
     run_cycle env = (Completed, st5) \<and>
     http_gets st5 = map (request_of env) locations @ map (request_of env) locations @
                     map (request_of env) locations"
proof -
  have ok5: "\<forall>j<5. marker_error env j = None" using ok by (simp add: weather_ok_marker)
  obtain st1 st2 where st1: "lst_map_section env init_state = (Inr (), st1)"
    and st2: "http_gets st2 = map (request_of env) locations"
    and pg2: "\<exists>evs. page st2 = page st1 @ evs"
    and run: "run_cycle env =
       (case alerts_loop env locations
               (spatial_section env (time_series_section env st2)) of
          (Inl e, st5) \<Rightarrow> (Crashed e, st5)
        | (Inr u, st5) \<Rightarrow> (Completed, st5))"
    using run_cycle_markers_ok [OF lst ok5] by blast
  let ?st3 = "time_series_section env st2"
  let ?st4 = "spatial_section env ?st3"
  have "\<forall>j<5. weather_ok env (length (http_gets ?st3) + j)"
    using ok by (simp add: st2 length_locations)
  from spatial_section_ok [OF this]
  have sp: "http_gets ?st4 = map (request_of env) locations @ map (request_of env) locations"
    and pg4: "\<exists>evs. page ?st4 = page ?st3 @ evs"
    by (auto simp: st2)
  have len4: "length (http_gets ?st4) = 10" by (simp add: sp length_locations)
  note ph = alerts_phase [OF run len4]
  have "\<forall>i<5. fetch_error env (10 + i) = None"
    using ok by (simp add: weather_ok_fetch)
  from ph(6) [OF this] have fin: "fst (run_cycle env) = Completed"
    "http_gets (snd (run_cycle env)) = http_gets ?st4 @ map (request_of env) locations"
    by simp_all
  from ph(1) pg4 have pg5: "\<exists>evs. page (snd (run_cycle env)) = page ?st3 @ evs"
    by auto
  have "run_cycle env = (Completed, snd (run_cycle env))"
    using fin(1) by (metis prod.collapse)
  with st1 pg2 pg5 fin(2) sp show ?thesis by auto
qed

lemma count_list_append: "count_list (xs @ ys) x = count_list xs x + count_list ys x"
  by (induction xs) simp_all

lemma count_request_of:
  "l \<in> set locations \<Longrightarrow> count_list (map (request_of env) locations) (request_of env l) = 1"
  by (auto simp: locations_def request_of_def)

text \<open>
  C9, as the code has it: the marker loop, the spatial section and the live alerts
  each send one GET per location, with its latitude, its longitude and the API key.
  A run in which the layer is drawn and every GET succeeds completes with these three
  passes, so with exactly three GETs for each of the five locations.
\<close>

theorem weather_gets_per_run:
  assumes "fst (lst_map_section env init_state) = Inr ()"
    and "\<forall>k<15. weather_ok env k"
  shows "fst (run_cycle env) = Completed \<and>
     http_gets (snd (run_cycle env)) =
       map (request_of env) locations @ map (request_of env) locations @
       map (request_of env) locations \<and>
     (\<forall>l \<in> set locations.
        count_list (http_gets (snd (run_cycle env))) (request_of env l) = 3)"
proof -
  obtain st5 where run: "run_cycle env = (Completed, st5)"
    and gets: "http_gets st5 = map (request_of env) locations @
       map (request_of env) locations @ map (request_of env) locations"
    using run_cycle_all_ok [OF assms] by blast
  have "\<forall>l \<in> set locations. count_list (http_gets st5) (request_of env l) = 3"
    by (simp add: gets count_list_append count_request_of)
  then show ?thesis by (simp add: run gets)
qed

theorem weather_gets_per_run_witness:
  "fst (lst_map_section calm_env init_state) = Inr () \<and>
   fst (run_cycle calm_env) = Completed \<and>
   length (http_gets (snd (run_cycle calm_env))) = 15 \<and>
   count_list (http_gets (snd (run_cycle calm_env)))
     (request_of calm_env (''Noida'', 28.5355, 77.3910)) = 3"
proof -
  have lst: "fst (lst_map_section calm_env init_state) = Inr ()"
    by (simp add: lst_map_section_def calm_env_def)
  have ok: "\<forall>k<15. weather_ok calm_env k"
    by (auto intro: ok_response_ok [of _ _ 30] simp: calm_env_def)
  have mem: "(''Noida'', 28.5355, 77.3910) \<in> set locations"
    by (simp add: locations_def)
  from weather_gets_per_run [OF lst ok] mem lst show ?thesis
    by (auto simp: length_locations)
qed

text \<open>C9 as stated fails: a run sends three GETs for Delhi, not one.\<close>

theorem three_gets_for_delhi:
  "fst (run_cycle calm_env) = Completed \<and>
   count_list (http_gets (snd (run_cycle calm_env)))
     \<lparr>req_lat = 28.6139, req_lon = 77.2090, req_appid = ''KEY''\<rparr> = 3 \<and>
   length (http_gets (snd (run_cycle calm_env))) = 15"
  by (simp add: run_defs)

subsection \<open>Failures of the imagery service\<close>

lemma run_cycle_after_layer:
  assumes st1: "lst_map_section env init_state = (Inr (), st1)"
  shows "(\<exists>evs. page (snd (run_cycle env)) = page st1 @ evs) \<and>
         http_gets (snd (run_cycle env)) \<noteq> []"
proof -
  obtain r st2 where ml: "marker_loop env locations st1 = (r, st2)"
    by (cases "marker_loop env locations st1")
  have ne: "locations \<noteq> []" by (simp add: locations_def)
  from marker_loop_page [OF ml] obtain evs2 where pg2: "page st2 = page st1 @ evs2" by blast
  from marker_loop_gets [OF ml] ne obtain n where n: "0 < n"
    "http_gets st2 = http_gets st1 @ map (request_of env) (take n locations)"
    by auto
  have gets2: "http_gets st2 \<noteq> []" using n ne by (cases locations) auto
  show ?thesis
  proof (cases r)
    case (Inl e)
    then have "run_cycle env = (Crashed e, st2)" by (simp add: run_cycle_def st1 ml)
    then show ?thesis using pg2 gets2 by simp
  next
    case (Inr u)
    let ?st3 = "time_series_section env st2"
    let ?st4 = "spatial_section env ?st3"
    obtain r5 st5 where al: "alerts_loop env locations ?st4 = (r5, st5)"
      by (cases "alerts_loop env locations ?st4")
    have snd_run: "snd (run_cycle env) = st5"
      by (simp add: run_cycle_def st1 ml Inr al split: sum.splits)
    obtain evs3 where pg3: "page ?st3 = page st2 @ evs3"
      using time_series_section_page by blast
    obtain evs4 where pg4: "page ?st4 = page ?st3 @ evs4"
      using spatial_section_grows by blast
    obtain k where gets4: "http_gets ?st4 = http_gets ?st3 @ map (request_of env) (take k locations)"
      using spatial_section_sends by blast
    from alerts_loop_grows [OF al] obtain evs5 j where pg5: "page st5 = page ?st4 @ evs5"
      and gets5: "http_gets st5 = http_gets ?st4 @ map (request_of env) (take j locations)"
      by blast
    have "page st5 = page st1 @ (evs2 @ evs3 @ evs4 @ evs5)"
      by (simp add: pg5 pg4 pg3 pg2)
    moreover have "http_gets st5 \<noteq> []"
      using gets2 by (simp add: gets5 gets4)
    ultimately show ?thesis by (auto simp: snd_run)
  qed
qed

text \<open>
  C8, as the code has it. When the time series section is reached (the layer is drawn
  or reported empty and the marker loop has ended without exception), every exception
  raised inside it is caught there: the page shows the error of the section, and the
  spatial section and the live alerts are run after it, which send at least the sixth
  and one more GET. A composite with no band is reported on the page and the run goes
  on to the marker loop. An exception raised by the imagery calls of the satellite
  layer is not caught: it ends the run before anything is shown.
\<close>

theorem imagery_error_handling:
  "(fst (lst_map_section env init_state) = Inr () \<and> (\<forall>j<5. marker_error env j = None) \<and>
    time_series_body env = Inl e \<longrightarrow>
      St_exception ''Error fetching time series data: '' e
        \<in> set (page (snd (run_cycle env))) \<and>
      take 5 (http_gets (snd (run_cycle env))) = map (request_of env) locations \<and>
      http_gets (snd (run_cycle env)) ! 5 = request_of env (hd locations) \<and>
      7 \<le> length (http_gets (snd (run_cycle env)))) \<and>
   (band_count env = Inr 0 \<longrightarrow>
      St_error ''No MODIS images found for the selected date!''
        \<in> set (page (snd (run_cycle env))) \<and>
      http_gets (snd (run_cycle env)) \<noteq> []) \<and>
   (band_count env = Inl e \<or>
    (\<exists>n. band_count env = Inr (Suc n) \<and> map_id env = Inl e) \<longrightarrow>
      run_cycle env = (Crashed e, init_state))"
proof (intro conjI impI)
  assume a: "fst (lst_map_section env init_state) = Inr () \<and>
    (\<forall>j<5. marker_error env j = None) \<and> time_series_body env = Inl e"
  then have lst: "fst (lst_map_section env init_state) = Inr ()"
    and ok5: "\<forall>j<5. marker_error env j = None" and ts: "time_series_body env = Inl e"
    by simp_all
  obtain st2 where st2: "http_gets st2 = map (request_of env) locations"
    and run: "run_cycle env =
       (case alerts_loop env locations
               (spatial_section env (time_series_section env st2)) of
          (Inl e, st5) \<Rightarrow> (Crashed e, st5)
        | (Inr u, st5) \<Rightarrow> (Completed, st5))"
    using run_cycle_markers_ok [OF lst ok5] by blast
  let ?st3 = "time_series_section env st2"
  let ?st4 = "spatial_section env ?st3"
  have pg3: "page ?st3 = page st2 @ [St_exception ''Error fetching time series data: '' e]"
    by (rule time_series_section_error [OF ts])
  obtain evs4 where pg4: "page ?st4 = page ?st3 @ evs4"
    using spatial_section_grows by blast
  obtain n where n: "0 < n" "n \<le> 5"
    and gets4: "http_gets ?st4 = http_gets ?st3 @ map (request_of env) (take n locations)"
    using spatial_section_sends by blast
  have ne: "locations \<noteq> []" by (simp add: locations_def)
  have tk: "take n locations = hd locations # take (n - 1) (tl locations)"
    using n(1) ne by (simp add: take_hd_tl)
  have len4: "length (http_gets ?st4) = 5 + n"
    using n by (simp add: gets4 st2 length_locations)
  note ph = alerts_phase [OF run len4]
  show "St_exception ''Error fetching time series data: '' e
        \<in> set (page (snd (run_cycle env)))"
    using ph(1) pg4 pg3 by auto
  have tk_run: "take (5 + n) (http_gets (snd (run_cycle env))) =
      map (request_of env) locations @ map (request_of env) (take n locations)"
    using ph(4) by (simp add: gets4 st2)
  have "take 5 (take (5 + n) (http_gets (snd (run_cycle env)))) =
      map (request_of env) locations"
    unfolding tk_run by (simp add: length_locations)
  then show "take 5 (http_gets (snd (run_cycle env))) = map (request_of env) locations"
    by simp
  have "take (5 + n) (http_gets (snd (run_cycle env))) ! 5 = request_of env (hd locations)"
    unfolding tk_run by (simp add: nth_append length_locations tk)
  then show "http_gets (snd (run_cycle env)) ! 5 = request_of env (hd locations)"
    using n(1) by simp
  show "7 \<le> length (http_gets (snd (run_cycle env)))"
    using ph(2) n(1) by simp
next
  assume b: "band_count env = Inr 0"
  then have lst: "lst_map_section env init_state =
      (Inr (), emit [St_error ''No MODIS images found for the selected date!''] init_state)"
    by (simp add: lst_map_section_def)
  from run_cycle_after_layer [OF lst]
  show "St_error ''No MODIS images found for the selected date!''
      \<in> set (page (snd (run_cycle env)))"
    and "http_gets (snd (run_cycle env)) \<noteq> []"
    by auto
next
  assume "band_count env = Inl e \<or>
          (\<exists>n. band_count env = Inr (Suc n) \<and> map_id env = Inl e)"
  then have "lst_map_section env init_state = (Inl e, init_state)"
    by (auto simp: lst_map_section_def)
  then show "run_cycle env = (Crashed e, init_state)"
    by (simp add: run_cycle_def)
qed

theorem imagery_error_handling_witness:
  "St_exception ''Error fetching time series data: '' (Raised ''EEException'' ''Quota exceeded'')
     \<in> set (page (snd (run_cycle
          (calm_env\<lparr>ts_info := Inl (Raised ''EEException'' ''Quota exceeded'')\<rparr>)))) \<and>
   St_exception ''Error fetching time series data: '' AttributeError
     \<in> set (page (snd (run_cycle
          (calm_env\<lparr>ts_info := Inr [JObj [(''properties'', JNull)]]\<rparr>)))) \<and>
   St_exception ''Error fetching time series data: '' (KeyError ''date'')
     \<in> set (page (snd (run_cycle
          (calm_env\<lparr>ts_info :=
             Inr [JObj [(''properties'', JObj [(''mean_lst'', JNum 21)])]]\<rparr>)))) \<and>
   St_exception ''Error fetching time series data: '' (ValueError ''n/a'')
     \<in> set (page (snd (run_cycle
          (calm_env\<lparr>ts_info :=
             Inr [JObj [(''properties'',
                    JObj [(''date'', JStr ''2026-01-05''), (''mean_lst'', JStr ''n/a'')])]]\<rparr>)))) \<and>
   St_exception ''Error fetching time series data: '' (Raised ''DateParseError'' ''garbage'')
     \<in> set (page (snd (run_cycle
          (calm_env\<lparr>ts_info :=
             Inr [JObj [(''properties'',
                    JObj [(''date'', JStr ''garbage''), (''mean_lst'', JNum 21)])]],
             to_datetime := (\<lambda>dates. Inl (Raised ''DateParseError'' ''garbage''))\<rparr>)))) \<and>
   St_error ''No MODIS images found for the selected date!''
     \<in> set (page (snd (run_cycle (calm_env\<lparr>band_count := Inr 0\<rparr>)))) \<and>
   run_cycle (calm_env\<lparr>band_count := Inr 1,
       map_id := Inl (Raised ''EEException'' ''Not signed up'')\<rparr>) =
     (Crashed (Raised ''EEException'' ''Not signed up''), init_state)"
proof -
  let ?q = "Raised ''EEException'' ''Quota exceeded''"
  let ?quota = "calm_env\<lparr>ts_info := Inl ?q\<rparr>"
  let ?null = "calm_env\<lparr>ts_info := Inr [JObj [(''properties'', JNull)]]\<rparr>"
  let ?nodate = "calm_env\<lparr>ts_info :=
             Inr [JObj [(''properties'', JObj [(''mean_lst'', JNum 21)])]]\<rparr>"
  let ?text = "calm_env\<lparr>ts_info :=
             Inr [JObj [(''properties'',
                    JObj [(''date'', JStr ''2026-01-05''), (''mean_lst'', JStr ''n/a'')])]]\<rparr>"
  let ?d = "Raised ''DateParseError'' ''garbage''"
  let ?date = "calm_env\<lparr>ts_info :=
             Inr [JObj [(''properties'',
                    JObj [(''date'', JStr ''garbage''), (''mean_lst'', JNum 21)])]],
             to_datetime := (\<lambda>dates. Inl ?d)\<rparr>"
  let ?none = "calm_env\<lparr>band_count := Inr 0\<rparr>"
  let ?a = "Raised ''EEException'' ''Not signed up''"
  let ?auth = "calm_env\<lparr>band_count := Inr 1, map_id := Inl ?a\<rparr>"
  have lst: "fst (lst_map_section ?quota init_state) = Inr ()"
    "fst (lst_map_section ?null init_state) = Inr ()"
    "fst (lst_map_section ?nodate init_state) = Inr ()"
    "fst (lst_map_section ?text init_state) = Inr ()"
    "fst (lst_map_section ?date init_state) = Inr ()"
    by (simp_all add: lst_map_section_def calm_env_def)
  have mk: "\<forall>j<5. marker_error ?quota j = None" "\<forall>j<5. marker_error ?null j = None"
    "\<forall>j<5. marker_error ?nodate j = None" "\<forall>j<5. marker_error ?text j = None"
    "\<forall>j<5. marker_error ?date j = None"
    by (rule calm_markers, simp)+
  have ts: "time_series_body ?quota = Inl ?q"
    "time_series_body ?null = Inl AttributeError"
    "time_series_body ?nodate = Inl (KeyError ''date'')"
    "time_series_body ?text = Inl (ValueError ''n/a'')"
    "time_series_body ?date = Inl ?d"
    by (simp_all add: time_series_body_def calm_env_def member_of_def)
  have "St_exception ''Error fetching time series data: '' ?q
          \<in> set (page (snd (run_cycle ?quota)))"
    using imagery_error_handling [of ?quota ?q] lst(1) mk(1) ts(1) by blast
  moreover have "St_exception ''Error fetching time series data: '' AttributeError
          \<in> set (page (snd (run_cycle ?null)))"
    using imagery_error_handling [of ?null AttributeError] lst(2) mk(2) ts(2) by blast
  moreover have "St_exception ''Error fetching time series data: '' (KeyError ''date'')
          \<in> set (page (snd (run_cycle ?nodate)))"
    using imagery_error_handling [of ?nodate "KeyError ''date''"] lst(3) mk(3) ts(3) by blast
  moreover have "St_exception ''Error fetching time series data: '' (ValueError ''n/a'')
          \<in> set (page (snd (run_cycle ?text)))"
    using imagery_error_handling [of ?text "ValueError ''n/a''"] lst(4) mk(4) ts(4) by blast
  moreover have "St_exception ''Error fetching time series data: '' ?d
          \<in> set (page (snd (run_cycle ?date)))"
    using imagery_error_handling [of ?date ?d] lst(5) mk(5) ts(5) by blast
  moreover have "St_error ''No MODIS images found for the selected date!''
          \<in> set (page (snd (run_cycle ?none)))"
    using imagery_error_handling [of ?none ?q] by (simp add: calm_env_def)
  moreover have "run_cycle ?auth = (Crashed ?a, init_state)"
    using imagery_error_handling [of ?auth ?a] by (simp add: calm_env_def)
  ultimately show ?thesis by blast
qed

text \<open>
  C8 as stated fails: a quota error at the band count of the satellite layer ends the
  run, with an empty page and no request sent.
\<close>

theorem layer_failure_ends_run:
  "run_cycle (calm_env\<lparr>band_count := Inl (Raised ''EEException'' ''Quota exceeded'')\<rparr>) =
     (Crashed (Raised ''EEException'' ''Quota exceeded''), \<lparr>http_gets = [], page = []\<rparr>)"
  by (simp add: run_defs)

end
